theory Spec2Isabelle
  imports Main "HOL-Library.Sublist"
begin

text \<open>
  The lifecycle and health subsystem of the gastown daemon: the health classifier and the
  remediation of stuck agents, the respawn policy table and the per-agent respawn
  bookkeeping, the session-name grammar of agent identities, and the processing of
  lifecycle requests from the deacon's inbox. The definitions follow the Go sources
  function by function and keep their names; the theorems come after all definitions.
\<close>

section \<open>Time\<close>

text \<open>
  Go's \<^verbatim>\<open>time.Time\<close> is an instant and \<^verbatim>\<open>time.Duration\<close> a signed 64-bit count of
  nanoseconds. An instant is modelled as the (unbounded) number of nanoseconds since the
  zero instant, so that \<^verbatim>\<open>t.IsZero()\<close> is \<open>t = 0\<close>; a duration is an \<open>int\<close>, and the one
  place where the library leaves the 64-bit range, \<^verbatim>\<open>Time.Sub\<close>, saturates as Go does.
\<close>

type_synonym Time = int
type_synonym Duration = int

definition minDuration :: Duration where
  "minDuration = - (2 ^ 63)"

definition maxDuration :: Duration where
  "maxDuration = 2 ^ 63 - 1"

definition Second :: Duration where
  "Second = 1000000000"

definition Minute :: Duration where
  "Minute = 60 * Second"

definition Hour :: Duration where
  "Hour = 60 * Minute"

definition IsZero :: "Time \<Rightarrow> bool" where
  "IsZero t = (t = 0)"

text \<open>\<^verbatim>\<open>t.Sub(u)\<close>: the difference, clamped to the range of a Duration.\<close>

definition time_Sub :: "Time \<Rightarrow> Time \<Rightarrow> Duration" where
  "time_Sub t u =
     (if t - u > maxDuration then maxDuration
      else if t - u < minDuration then minDuration
      else t - u)"

text \<open>\<^verbatim>\<open>time.Since(t)\<close> is \<^verbatim>\<open>time.Now().Sub(t)\<close>; the clock reading is the argument \<open>now\<close>.\<close>

definition time_Since :: "Time \<Rightarrow> Time \<Rightarrow> Duration" where
  "time_Since now t = time_Sub now t"

text \<open>\<^verbatim>\<open>t.Add(d)\<close>.\<close>

definition time_Add :: "Time \<Rightarrow> Duration \<Rightarrow> Time" where
  "time_Add t d = t + d"

text \<open>An instant for the examples: 2025-06-01 12:00:00 UTC.\<close>

definition noon :: Time where
  "noon = 63884376000000000000"

text \<open>Subtraction of two Durations in the program is 64-bit and wraps.\<close>

definition wrap64 :: "int \<Rightarrow> Duration" where
  "wrap64 x = (x + 2 ^ 63) mod 2 ^ 64 - 2 ^ 63"

text \<open>
  \<^verbatim>\<open>d.Round(m)\<close> of the library: the multiple of \<open>m\<close> nearest to \<open>d\<close>, halfway values
  away from zero, the largest or smallest Duration where the result does not fit.
  \<open>lessThanHalf\<close> is the library's comparison of \<open>x + x\<close> with \<open>y\<close> in unsigned 64-bit
  arithmetic; \<open>rem64\<close> is Go's \<^verbatim>\<open>%\<close>, whose result has the sign of the dividend.
\<close>

definition lessThanHalf :: "Duration \<Rightarrow> Duration \<Rightarrow> bool" where
  "lessThanHalf x y = ((x mod 2 ^ 64 + x mod 2 ^ 64) mod 2 ^ 64 < y mod 2 ^ 64)"

definition rem64 :: "Duration \<Rightarrow> Duration \<Rightarrow> Duration" where
  "rem64 d m = (if d < 0 then - ((- d) mod \<bar>m\<bar>) else d mod \<bar>m\<bar>)"

definition Duration_Round :: "Duration \<Rightarrow> Duration \<Rightarrow> Duration" where
  "Duration_Round d m =
     (if m \<le> 0 then d
      else
        let r = rem64 d m in
        if d < 0 then
          (let r = - r in
           if lessThanHalf r m then d + r
           else let d1 = wrap64 (d - m + r) in
                if d1 < d then d1 else minDuration)
        else if lessThanHalf r m then d - r
        else let d1 = wrap64 (d + m - r) in
             if d1 > d then d1 else maxDuration)"

section \<open>The daemon's surroundings\<close>

text \<open>
  The daemon talks to a terminal session manager (tmux), a mailbox (\<^verbatim>\<open>gt mail\<close>), the
  ticket store (\<^verbatim>\<open>bd\<close>), git and the file system. None of them is part of the code under
  verification. What they hold is the \<open>World\<close>; what the daemon cannot influence (its
  configuration, which external call returns an error, what the decoders of the standard
  library make of a text) is the \<open>Env\<close>. Every command the daemon issues is appended to
  the world's \<open>trace\<close> together with its outcome (\<open>True\<close>: no error). Calls to the logger
  change nothing that is observed here and are left out.
\<close>

datatype Cmd =
    MailInbox
  | MailDelete string
  | HasSession string
  | KillSession string
  | KillSessionWithProcesses string
  | NudgeSession string Duration
  | EnsureSessionFresh string string
  | SetEnvironment string string string
  | ConfigureGasTownSession string string string string
  | SendKeys string string
  | WaitForCommand string
  | AcceptBypassPermissionsWarning string
  | GitFetch string
  | GitPullRebase string
  | BdSync string
  | WriteFile string "(string \<times> bool option) list"
  | LogFeedAgentStuck string string string Duration

text \<open>
  An agent's \<^verbatim>\<open>state.json\<close>, as \<^verbatim>\<open>json.Unmarshal\<close> into \<^verbatim>\<open>map[string]interface{}\<close> sees
  it: not decodable, or an object. A member's value is \<open>Some b\<close> for the JSON booleans
  and \<open>None\<close> for a value of any other JSON type (the type assertion \<^verbatim>\<open>val.(bool)\<close>
  tells exactly these apart). The object is an association list; the first entry of a key
  is its value.
\<close>

datatype JsonDoc = Malformed | JObject "(string \<times> bool option) list"

datatype FileEntry = Unreadable | Content JsonDoc

record BeadsMessage =
  ID :: string
  From :: string
  To :: string
  Subject :: string
  Body :: string
  Timestamp :: string
  Read :: bool
  Priority :: string
  Type :: string

record RoleConfig =
  SessionPattern :: string
  WorkDirPattern :: string
  NeedsPreSync :: bool
  StartCommand :: string
  EnvVars :: "(string \<times> string) list"

record BdIssue =
  issue_type :: string
  labels :: "string list"

record World =
  sessions :: "string set"
  inbox :: "BeadsMessage list"
  files :: "string \<rightharpoonup> FileEntry"
  clock :: Time
  trace :: "(Cmd \<times> bool) list"

record Env =
  TownRoot :: string
  fails :: "nat \<Rightarrow> Cmd \<Rightarrow> bool"
  GetTownName :: "string option"
  GetRoleConfig :: "string \<Rightarrow> RoleConfig option"
  ExpandRolePattern :: "string \<Rightarrow> string \<Rightarrow> string \<Rightarrow> string \<Rightarrow> string \<Rightarrow> string"
  GetRuntimeCommand :: string
  BuildPolecatStartupCommand :: "string \<Rightarrow> string \<Rightarrow> string"
  strings_ToLower :: "string \<Rightarrow> string"
  strings_TrimSpace :: "string \<Rightarrow> string"
  jsonLifecycleBody :: "string \<Rightarrow> string option"
  parseRFC3339 :: "string \<Rightarrow> Time option"
  bdShow :: "string \<Rightarrow> BdIssue list option"
  getDeaconSessionName :: string
  getKnownRigs :: "string list"
  ShutdownNotifyDelay :: Duration

text \<open>
  Modelled from the spec: the session manager and the mailbox are external collaborators
  (spec section 6: \<^verbatim>\<open>KillSession(name)\<close>, \<^verbatim>\<open>KillSessionWithProcesses(name)\<close>,
  \<^verbatim>\<open>NewSession(name, workdir)\<close>, \<^verbatim>\<open>Delete(id)\<close>). A command that returns no error has
  the effect its name says; every other command leaves the world as it is.
\<close>

fun effect :: "Cmd \<Rightarrow> World \<Rightarrow> World" where
  "effect (MailDelete i) w = w\<lparr>inbox := filter (\<lambda>m. ID m \<noteq> i) (inbox w)\<rparr>"
| "effect (KillSession s) w = w\<lparr>sessions := sessions w - {s}\<rparr>"
| "effect (KillSessionWithProcesses s) w = w\<lparr>sessions := sessions w - {s}\<rparr>"
| "effect (EnsureSessionFresh s dir) w = w\<lparr>sessions := insert s (sessions w)\<rparr>"
| "effect (WriteFile p kvs) w = w\<lparr>files := (files w)(p \<mapsto> Content (JObject kvs))\<rparr>"
| "effect _ w = w"

text \<open>
  Issuing a command: the \<open>n\<close>-th command of a run returns an error when the environment
  says so, and then has no effect; the command and its outcome are recorded.
\<close>

definition exec :: "Env \<Rightarrow> Cmd \<Rightarrow> World \<Rightarrow> bool \<times> World" where
  "exec env c w =
     (if fails env (length (trace w)) c
      then (False, w\<lparr>trace := trace w @ [(c, False)]\<rparr>)
      else (True, (effect c w)\<lparr>trace := trace w @ [(c, True)]\<rparr>))"

text \<open>\<^verbatim>\<open>d.tmux.HasSession(name)\<close>: an error (\<open>None\<close>), or whether the session is alive.\<close>

definition tmux_HasSession :: "Env \<Rightarrow> string \<Rightarrow> World \<Rightarrow> bool option" where
  "tmux_HasSession env s w =
     (if fails env (length (trace w)) (HasSession s) then None else Some (s \<in> sessions w))"

section \<open>Agent health (internal/daemon/agent_health.go)\<close>

datatype AgentStatus = StatusHealthy | StatusNeedsRespawn | StatusWaitingRespawn | StatusStuck

record AgentHealthConfig =
  Role :: string
  RigName :: string
  SessionName :: string
  StuckThreshold :: Duration
  RespawnDelay :: Duration
  LastDeath :: Time

definition DefaultStuckThreshold :: Duration where
  "DefaultStuckThreshold = 15 * Minute"

definition DefaultRespawnDelay :: Duration where
  "DefaultRespawnDelay = 30 * Second"

definition CriticalStuckThreshold :: Duration where
  "CriticalStuckThreshold = 30 * Minute"

text \<open>
  The result's \<^verbatim>\<open>Message\<close> is built with \<^verbatim>\<open>fmt.Sprintf\<close>; it is kept as the format chosen
  and the arguments handed to it:
  \<^item> \<open>MsgNone\<close>: the empty string of a zero-valued result;
  \<^item> \<open>MsgProbeError\<close>: \<^verbatim>\<open>"error checking session: %v"\<close>;
  \<^item> \<open>MsgRespawnElapsed\<close>: \<^verbatim>\<open>"session dead, respawn delay elapsed"\<close>;
  \<^item> \<open>MsgWaitingRespawn r\<close>: \<^verbatim>\<open>"session dead, waiting for respawn delay (%v remaining)"\<close>;
  \<^item> \<open>MsgFirstStartup\<close>: \<^verbatim>\<open>"no heartbeat yet (first startup)"\<close>;
  \<^item> \<open>MsgHeartbeatStale a t\<close>: \<^verbatim>\<open>"session alive but heartbeat stale (%v old, threshold %v)"\<close>;
  \<^item> \<open>MsgHealthyAge a\<close>: \<^verbatim>\<open>"healthy, last heartbeat %v ago"\<close>;
  \<^item> \<open>MsgHealthy\<close>: \<^verbatim>\<open>"healthy"\<close>.

  The age \<open>a\<close> of \<open>MsgHeartbeatStale\<close> and \<open>MsgHealthyAge\<close> is the heartbeat age rounded
  to the minute.
\<close>

datatype HealthMessage =
    MsgNone
  | MsgProbeError
  | MsgRespawnElapsed
  | MsgWaitingRespawn Duration
  | MsgFirstStartup
  | MsgHeartbeatStale Duration Duration
  | MsgHealthyAge Duration
  | MsgHealthy

record AgentHealthResult =
  Status :: AgentStatus
  SessionAlive :: bool
  HeartbeatAge :: Duration
  LastHeartbeat :: Time
  Message :: HealthMessage

text \<open>The zero value \<^verbatim>\<open>AgentHealthResult{}\<close>; the zero \<^verbatim>\<open>AgentStatus\<close> is the empty string,
  which no path returns: every path below assigns \<open>Status\<close>.\<close>

definition getRigPrefix :: "string \<Rightarrow> string" where
  "getRigPrefix rigName =
     (if rigName = ''gastown'' then ''gt''
      else if rigName = ''beads'' then ''bd''
      else ''gt'')"

definition buildPatrolAgentBeadID :: "string \<Rightarrow> string \<Rightarrow> string" where
  "buildPatrolAgentBeadID role rigName =
     (if role = ''deacon'' then ''hq-deacon''
      else if role = ''witness'' then
        (if rigName \<noteq> [] then getRigPrefix rigName @ ''-'' @ rigName @ ''-witness'' else [])
      else if role = ''refinery'' then
        (if rigName \<noteq> [] then getRigPrefix rigName @ ''-'' @ rigName @ ''-refinery'' else [])
      else [])"

text \<open>\<^verbatim>\<open>getAgentBeadInfo\<close>, as far as \<^verbatim>\<open>getLastPatrolCompleted\<close> uses it: whether it returns
  an error.\<close>

definition getAgentBeadInfo_ok :: "Env \<Rightarrow> string \<Rightarrow> bool" where
  "getAgentBeadInfo_ok env agentBeadID =
     (case bdShow env agentBeadID of
        None \<Rightarrow> False
      | Some [] \<Rightarrow> False
      | Some (issue # _) \<Rightarrow> issue_type issue = ''agent'')"

text \<open>The loop over the labels of \<^verbatim>\<open>parseLastActivityFromBead\<close>: the first label with the
  prefix decides.\<close>

fun lastActivityOfLabels :: "Env \<Rightarrow> string list \<Rightarrow> Time" where
  "lastActivityOfLabels env [] = 0"
| "lastActivityOfLabels env (label # rest) =
     (if length label > 14 \<and> take 14 label = ''last_activity:'' then
        (case parseRFC3339 env (drop 14 label) of
           None \<Rightarrow> 0
         | Some t \<Rightarrow> t)
      else lastActivityOfLabels env rest)"

definition parseLastActivityFromBead :: "Env \<Rightarrow> string \<Rightarrow> Time" where
  "parseLastActivityFromBead env agentBeadID =
     (case bdShow env agentBeadID of
        None \<Rightarrow> 0
      | Some [] \<Rightarrow> 0
      | Some (issue # _) \<Rightarrow> lastActivityOfLabels env (labels issue))"

definition getLastPatrolCompleted :: "Env \<Rightarrow> string \<Rightarrow> string \<Rightarrow> Time" where
  "getLastPatrolCompleted env role rigName =
     (let agentBeadID = buildPatrolAgentBeadID role rigName in
      if agentBeadID = [] then 0
      else if \<not> getAgentBeadInfo_ok env agentBeadID then 0
      else parseLastActivityFromBead env agentBeadID)"

definition respawnDelayElapsed :: "World \<Rightarrow> AgentHealthConfig \<Rightarrow> bool" where
  "respawnDelayElapsed w config =
     (if IsZero (LastDeath config) then True
      else time_Since (clock w) (LastDeath config) \<ge> RespawnDelay config)"

definition checkAgentHealth :: "Env \<Rightarrow> World \<Rightarrow> AgentHealthConfig \<Rightarrow> AgentHealthResult" where
  "checkAgentHealth env w config =
     (let result = \<lparr>Status = StatusHealthy, SessionAlive = False, HeartbeatAge = 0,
                     LastHeartbeat = 0, Message = MsgNone\<rparr> in
      case tmux_HasSession env (SessionName config) w of
        None \<Rightarrow> result\<lparr>Status := StatusHealthy, Message := MsgProbeError\<rparr>
      | Some sessionAlive \<Rightarrow>
          (let result = result\<lparr>SessionAlive := sessionAlive\<rparr>;
               lastHeartbeat = getLastPatrolCompleted env (Role config) (RigName config);
               result = (if \<not> IsZero lastHeartbeat
                         then result\<lparr>LastHeartbeat := lastHeartbeat,
                                      HeartbeatAge := time_Since (clock w) lastHeartbeat\<rparr>
                         else result)
           in
           if \<not> sessionAlive \<and> respawnDelayElapsed w config then
             result\<lparr>Status := StatusNeedsRespawn, Message := MsgRespawnElapsed\<rparr>
           else if \<not> sessionAlive then
             result\<lparr>Status := StatusWaitingRespawn,
                     Message := MsgWaitingRespawn
                       (wrap64 (RespawnDelay config - time_Since (clock w) (LastDeath config)))\<rparr>
           else if sessionAlive \<and> HeartbeatAge result > StuckThreshold config then
             (if IsZero lastHeartbeat then
                result\<lparr>Status := StatusHealthy, Message := MsgFirstStartup\<rparr>
              else
                result\<lparr>Status := StatusStuck,
                        Message := MsgHeartbeatStale (Duration_Round (HeartbeatAge result) Minute)
                                     (StuckThreshold config)\<rparr>)
           else
             (if HeartbeatAge result > 0 then
                result\<lparr>Status := StatusHealthy,
                        Message := MsgHealthyAge (Duration_Round (HeartbeatAge result) Minute)\<rparr>
              else
                result\<lparr>Status := StatusHealthy, Message := MsgHealthy\<rparr>)))"

text \<open>
  \<^verbatim>\<open>handleStuckAgent\<close>: the observability record, then the kill or the nudge. An error of
  either command is logged and otherwise ignored. The event carries the heartbeat age as
  it is; the text of the nudge is fixed but for the age rounded to the minute, and that is
  what \<open>NudgeSession\<close> records.
\<close>

definition handleStuckAgent :: "Env \<Rightarrow> AgentHealthConfig \<Rightarrow> AgentHealthResult \<Rightarrow> World \<Rightarrow> World" where
  "handleStuckAgent env config result w =
     (let w1 = snd (exec env (LogFeedAgentStuck (Role config) (RigName config)
                               (SessionName config) (HeartbeatAge result)) w) in
      if HeartbeatAge result > CriticalStuckThreshold then
        snd (exec env (KillSessionWithProcesses (SessionName config)) w1)
      else
        snd (exec env (NudgeSession (SessionName config)
                         (Duration_Round (HeartbeatAge result) Minute)) w1))"

text \<open>
  \<^verbatim>\<open>checkDeaconAgentHealth\<close>, \<^verbatim>\<open>checkWitnessAgentHealth\<close> and \<^verbatim>\<open>checkRefineryAgentHealth\<close>
  build a configuration, call \<^verbatim>\<open>checkAgentHealth\<close> and switch on the status in the same
  way: a stuck agent is handed to \<^verbatim>\<open>handleStuckAgent\<close>, the other three cases only log.
  \<open>checkAndHandle\<close> is that common part.
\<close>

definition checkAndHandle :: "Env \<Rightarrow> AgentHealthConfig \<Rightarrow> World \<Rightarrow> World" where
  "checkAndHandle env config w =
     (let result = checkAgentHealth env w config in
      case Status result of
        StatusStuck \<Rightarrow> handleStuckAgent env config result w
      | StatusNeedsRespawn \<Rightarrow> w
      | StatusWaitingRespawn \<Rightarrow> w
      | StatusHealthy \<Rightarrow> w)"

definition checkDeaconAgentHealth :: "Env \<Rightarrow> World \<Rightarrow> World" where
  "checkDeaconAgentHealth env w =
     checkAndHandle env
       \<lparr>Role = ''deacon'', RigName = [], SessionName = getDeaconSessionName env,
        StuckThreshold = DefaultStuckThreshold, RespawnDelay = DefaultRespawnDelay,
        LastDeath = 0\<rparr> w"

fun checkWitnessAgentHealth_loop :: "Env \<Rightarrow> string list \<Rightarrow> World \<Rightarrow> World" where
  "checkWitnessAgentHealth_loop env [] w = w"
| "checkWitnessAgentHealth_loop env (rigName # rigs) w =
     checkWitnessAgentHealth_loop env rigs
       (checkAndHandle env
          \<lparr>Role = ''witness'', RigName = rigName, SessionName = ''gt-'' @ rigName @ ''-witness'',
           StuckThreshold = DefaultStuckThreshold, RespawnDelay = DefaultRespawnDelay,
           LastDeath = 0\<rparr> w)"

definition checkWitnessAgentHealth :: "Env \<Rightarrow> World \<Rightarrow> World" where
  "checkWitnessAgentHealth env w = checkWitnessAgentHealth_loop env (getKnownRigs env) w"

fun checkRefineryAgentHealth_loop :: "Env \<Rightarrow> string list \<Rightarrow> World \<Rightarrow> World" where
  "checkRefineryAgentHealth_loop env [] w = w"
| "checkRefineryAgentHealth_loop env (rigName # rigs) w =
     checkRefineryAgentHealth_loop env rigs
       (checkAndHandle env
          \<lparr>Role = ''refinery'', RigName = rigName, SessionName = ''gt-'' @ rigName @ ''-refinery'',
           StuckThreshold = DefaultStuckThreshold, RespawnDelay = DefaultRespawnDelay,
           LastDeath = 0\<rparr> w)"

definition checkRefineryAgentHealth :: "Env \<Rightarrow> World \<Rightarrow> World" where
  "checkRefineryAgentHealth env w = checkRefineryAgentHealth_loop env (getKnownRigs env) w"

text \<open>Configurations for the examples: a refinery that died ten seconds ago and respawns
  at once or after half a minute, and a witness with a stuck threshold.\<close>

definition refineryConfig :: "Duration \<Rightarrow> AgentHealthConfig" where
  "refineryConfig delay =
     \<lparr>Role = ''refinery'', RigName = ''gastown'', SessionName = ''gt-gastown-refinery'',
      StuckThreshold = 5 * Minute, RespawnDelay = delay, LastDeath = noon - 10 * Second\<rparr>"

definition witnessConfig :: "Duration \<Rightarrow> AgentHealthConfig" where
  "witnessConfig threshold =
     \<lparr>Role = ''witness'', RigName = ''gastown'', SessionName = ''gt-gastown-witness'',
      StuckThreshold = threshold, RespawnDelay = DefaultRespawnDelay, LastDeath = 0\<rparr>"

definition deaconConfig :: AgentHealthConfig where
  "deaconConfig =
     \<lparr>Role = ''deacon'', RigName = [], SessionName = ''gt-ai-deacon'',
      StuckThreshold = DefaultStuckThreshold, RespawnDelay = DefaultRespawnDelay,
      LastDeath = 0\<rparr>"

section \<open>Daemon state and respawn policy (package daemon, types)\<close>

record RespawnConfig =
  Delay :: Duration
  StuckThreshold :: Duration
  Trigger :: string

definition DefaultRespawnConfigs :: "string \<rightharpoonup> RespawnConfig" where
  "DefaultRespawnConfigs =
     [''deacon'' \<mapsto> \<lparr>Delay = 5 * Minute, StuckThreshold = 15 * Minute, Trigger = ''always''\<rparr>,
      ''witness'' \<mapsto> \<lparr>Delay = 5 * Minute, StuckThreshold = 10 * Minute, Trigger = ''always''\<rparr>,
      ''refinery'' \<mapsto> \<lparr>Delay = 0, StuckThreshold = 5 * Minute, Trigger = ''mq-not-empty''\<rparr>]"

definition GetRespawnConfig :: "string \<Rightarrow> RespawnConfig" where
  "GetRespawnConfig role =
     (case DefaultRespawnConfigs role of
        Some cfg \<Rightarrow> cfg
      | None \<Rightarrow> \<lparr>Delay = 5 * Minute, StuckThreshold = 15 * Minute, Trigger = ''always''\<rparr>)"

text \<open>
  \<^verbatim>\<open>State.Agents\<close> is a \<^verbatim>\<open>map[string]*AgentState\<close>: the map holds pointers, the methods
  of \<^verbatim>\<open>State\<close> write through them. The objects live in a store of their own, an address
  is a number, \<open>Nil\<close> is the nil pointer, and \<open>limit\<close> is the first address not yet
  allocated. A nil map is \<open>None\<close>.
\<close>

record AgentState =
  Session :: string
  LastPatrolCompleted :: "Time option"
  RespawnScheduledAt :: "Time option"
  LastExitedAt :: "Time option"
  ExitReason :: string

datatype ref = Nil | Ref nat

record State =
  Running :: bool
  PID :: int
  StartedAt :: Time
  LastHeartbeat :: Time
  HeartbeatCount :: int
  Agents :: "(string \<rightharpoonup> ref) option"

record Store =
  objs :: "nat \<Rightarrow> AgentState"
  limit :: nat

text \<open>\<^verbatim>\<open>&AgentState{}\<close>: a new object with zero-valued fields.\<close>

definition zeroAgentState :: AgentState where
  "zeroAgentState = \<lparr>Session = [], LastPatrolCompleted = None, RespawnScheduledAt = None,
                      LastExitedAt = None, ExitReason = []\<rparr>"

definition new_AgentState :: "Store \<Rightarrow> nat \<times> Store" where
  "new_AgentState h =
     (limit h, h\<lparr>objs := (objs h)(limit h := zeroAgentState), limit := Suc (limit h)\<rparr>)"

text \<open>Reading a map, nil or not: a missing key reads as the nil pointer.\<close>

definition agents_lookup :: "State \<Rightarrow> string \<Rightarrow> ref" where
  "agents_lookup s agentID =
     (case Agents s of
        None \<Rightarrow> Nil
      | Some m \<Rightarrow> (case m agentID of None \<Rightarrow> Nil | Some r \<Rightarrow> r))"

definition GetAgentState :: "string \<Rightarrow> State \<times> Store \<Rightarrow> nat \<times> State \<times> Store" where
  "GetAgentState agentID sh =
     (let (s, h) = sh;
          s = (if Agents s = None then s\<lparr>Agents := Some Map.empty\<rparr> else s)
      in case agents_lookup s agentID of
           Ref a \<Rightarrow> (a, s, h)
         | Nil \<Rightarrow>
             (let (a, h) = new_AgentState h
              in (a, s\<lparr>Agents := Some ((case Agents s of Some m \<Rightarrow> m | None \<Rightarrow> Map.empty)
                                         (agentID \<mapsto> Ref a))\<rparr>, h)))"

text \<open>A write through the pointer: \<^verbatim>\<open>agent.Field = v\<close>.\<close>

definition store_update :: "nat \<Rightarrow> (AgentState \<Rightarrow> AgentState) \<Rightarrow> Store \<Rightarrow> Store" where
  "store_update a f h = h\<lparr>objs := (objs h)(a := f (objs h a))\<rparr>"

definition ScheduleRespawn ::
  "Time \<Rightarrow> string \<Rightarrow> string \<Rightarrow> string \<Rightarrow> string \<Rightarrow> State \<times> Store \<Rightarrow> State \<times> Store" where
  "ScheduleRespawn now agentID session role exitReason sh =
     (let (agent, s, h) = GetAgentState agentID sh;
          h = store_update agent (\<lambda>a. a\<lparr>Session := session\<rparr>) h;
          h = store_update agent (\<lambda>a. a\<lparr>ExitReason := exitReason\<rparr>) h;
          h = store_update agent (\<lambda>a. a\<lparr>LastExitedAt := Some now\<rparr>) h;
          cfg = GetRespawnConfig role;
          respawnAt = time_Add now (Delay cfg);
          h = store_update agent (\<lambda>a. a\<lparr>RespawnScheduledAt := Some respawnAt\<rparr>) h
      in (s, h))"

definition ClearRespawn :: "string \<Rightarrow> string \<Rightarrow> State \<times> Store \<Rightarrow> State \<times> Store" where
  "ClearRespawn agentID session sh =
     (let (agent, s, h) = GetAgentState agentID sh;
          h = store_update agent (\<lambda>a. a\<lparr>Session := session\<rparr>) h;
          h = store_update agent (\<lambda>a. a\<lparr>RespawnScheduledAt := None\<rparr>) h;
          h = store_update agent (\<lambda>a. a\<lparr>LastExitedAt := None\<rparr>) h;
          h = store_update agent (\<lambda>a. a\<lparr>ExitReason := []\<rparr>) h
      in (s, h))"

definition UpdatePatrolCompleted :: "Time \<Rightarrow> string \<Rightarrow> State \<times> Store \<Rightarrow> State \<times> Store" where
  "UpdatePatrolCompleted now agentID sh =
     (let (agent, s, h) = GetAgentState agentID sh;
          h = store_update agent (\<lambda>a. a\<lparr>LastPatrolCompleted := Some now\<rparr>) h
      in (s, h))"

text \<open>What a reader of the state finds under an agent's key: nothing (no key, or a nil
  pointer), or the object the pointer leads to.\<close>

definition agentEntry :: "State \<times> Store \<Rightarrow> string \<Rightarrow> AgentState option" where
  "agentEntry sh agentID =
     (case agents_lookup (fst sh) agentID of
        Nil \<Rightarrow> None
      | Ref a \<Rightarrow> Some (objs (snd sh) a))"

text \<open>
  The states the package builds: every pointer in the map has been allocated, and no two
  keys share an object. \<^verbatim>\<open>GetAgentState\<close> makes a new object for each key and decoding
  the state file does too; nothing in the package stores one pointer under two keys.
\<close>

definition state_ok :: "State \<times> Store \<Rightarrow> bool" where
  "state_ok sh =
     (\<forall>i a. agents_lookup (fst sh) i = Ref a \<longrightarrow>
        a < limit (snd sh) \<and> (\<forall>j. agents_lookup (fst sh) j = Ref a \<longrightarrow> j = i))"

text \<open>The state \<^verbatim>\<open>LoadState\<close> returns when there is no state file: \<^verbatim>\<open>&State{}\<close>.\<close>

definition zeroState :: "State \<times> Store" where
  "zeroState =
     (\<lparr>Running = False, PID = 0, StartedAt = 0, LastHeartbeat = 0, HeartbeatCount = 0,
       Agents = None\<rparr>,
      \<lparr>objs = (\<lambda>_. zeroAgentState), limit = 0\<rparr>)"

section \<open>Strings and paths of the Go library\<close>

text \<open>A Go string is a sequence of bytes, here a \<open>string\<close>. The functions follow the
  documentation of package \<^verbatim>\<open>strings\<close>.\<close>

definition strings_HasPrefix :: "string \<Rightarrow> string \<Rightarrow> bool" where
  "strings_HasPrefix s p = prefix p s"

definition strings_HasSuffix :: "string \<Rightarrow> string \<Rightarrow> bool" where
  "strings_HasSuffix s x = suffix x s"

definition strings_TrimPrefix :: "string \<Rightarrow> string \<Rightarrow> string" where
  "strings_TrimPrefix s p = (if prefix p s then drop (length p) s else s)"

definition strings_TrimSuffix :: "string \<Rightarrow> string \<Rightarrow> string" where
  "strings_TrimSuffix s x = (if suffix x s then take (length s - length x) s else s)"

text \<open>\<^verbatim>\<open>strings.Index\<close>: where the first instance of \<open>sep\<close> starts.\<close>

fun strings_Index :: "string \<Rightarrow> string \<Rightarrow> nat option" where
  "strings_Index [] sep = (if sep = [] then Some 0 else None)"
| "strings_Index (c # cs) sep =
     (if prefix sep (c # cs) then Some 0 else map_option Suc (strings_Index cs sep))"

definition strings_Contains :: "string \<Rightarrow> string \<Rightarrow> bool" where
  "strings_Contains s sep = (strings_Index s sep \<noteq> None)"

text \<open>\<^verbatim>\<open>strings.Split(s, sep)\<close> for a separator that is not empty, the only use the
  program makes of it: the pieces between the instances of \<open>sep\<close>, found from the left.\<close>

function strings_Split :: "string \<Rightarrow> string \<Rightarrow> string list" where
  "strings_Split s sep =
     (if sep = [] then [s]
      else case strings_Index s sep of
             None \<Rightarrow> [s]
           | Some i \<Rightarrow> take i s # strings_Split (drop (i + length sep) s) sep)"
  by pat_completeness auto
termination
proof (relation "measure (\<lambda>(s, sep). length s)")
  show "wf (measure (\<lambda>(s, sep). length s))"
    by simp
next
  fix s sep :: string and i :: nat
  assume sep: "sep \<noteq> []" and idx: "strings_Index s sep = Some i"
  from sep idx have "s \<noteq> []"
    by (cases s) auto
  moreover from sep have "0 < i + length sep"
    by simp
  ultimately show "((drop (i + length sep) s, sep), (s, sep)) \<in> measure (\<lambda>(s, sep). length s)"
    by simp
qed

declare strings_Split.simps [simp del]

text \<open>\<^verbatim>\<open>strings.SplitN(s, sep, 2)\<close>, again for a separator that is not empty: cut at the
  first instance.\<close>

definition strings_SplitN2 :: "string \<Rightarrow> string \<Rightarrow> string list" where
  "strings_SplitN2 s sep =
     (case strings_Index s sep of
        None \<Rightarrow> [s]
      | Some i \<Rightarrow> [take i s, drop (i + length sep) s])"

fun strings_Join :: "string list \<Rightarrow> string \<Rightarrow> string" where
  "strings_Join [] sep = []"
| "strings_Join [x] sep = x"
| "strings_Join (x # y # ys) sep = x @ sep @ strings_Join (y # ys) sep"

text \<open>
  \<^verbatim>\<open>filepath.Clean\<close> on a Unix path, which works on the path's text alone: runs of
  slashes count once, \<^verbatim>\<open>.\<close> elements go, a \<^verbatim>\<open>..\<close> element takes the element before it
  with it (at the root it just goes), and the empty result is \<^verbatim>\<open>.\<close>.
\<close>

definition cleanStep :: "bool \<Rightarrow> string list \<Rightarrow> string \<Rightarrow> string list" where
  "cleanStep rooted acc c =
     (if c = [] \<or> c = ''.'' then acc
      else if c = ''..'' then
        (if acc \<noteq> [] \<and> last acc \<noteq> ''..'' then butlast acc
         else if rooted then acc
         else acc @ [c])
      else acc @ [c])"

definition filepath_Clean :: "string \<Rightarrow> string" where
  "filepath_Clean path =
     (let rooted = prefix ''/'' path;
          elems = foldl (cleanStep rooted) [] (strings_Split path ''/'');
          out = (if rooted then ''/'' else []) @ strings_Join elems ''/''
      in if out = [] then ''.'' else out)"

text \<open>\<^verbatim>\<open>filepath.Join\<close>: empty elements in front are ignored, the rest is joined with
  slashes and cleaned; when every element is empty the result is the empty string.\<close>

definition filepath_Join :: "string list \<Rightarrow> string" where
  "filepath_Join elem =
     (case dropWhile (\<lambda>e. e = []) elem of
        [] \<Rightarrow> []
      | es \<Rightarrow> filepath_Clean (strings_Join es ''/''))"

section \<open>Agent identities and session names (internal/session)\<close>

definition Prefix :: string where
  "Prefix = ''gt-''"

definition MayorSessionName :: "string \<Rightarrow> string" where
  "MayorSessionName townName = Prefix @ townName @ ''-mayor''"

definition DeaconSessionName :: "string \<Rightarrow> string" where
  "DeaconSessionName townName = Prefix @ townName @ ''-deacon''"

definition WitnessSessionName :: "string \<Rightarrow> string" where
  "WitnessSessionName rig = Prefix @ rig @ ''-witness''"

definition RefinerySessionName :: "string \<Rightarrow> string" where
  "RefinerySessionName rig = Prefix @ rig @ ''-refinery''"

definition CrewSessionName :: "string \<Rightarrow> string \<Rightarrow> string" where
  "CrewSessionName rig name = Prefix @ rig @ ''-crew-'' @ name"

definition PolecatSessionName :: "string \<Rightarrow> string \<Rightarrow> string" where
  "PolecatSessionName rig name = Prefix @ rig @ ''-'' @ name"

text \<open>\<^verbatim>\<open>Role\<close> is a string type with six named values.\<close>

definition RoleMayor :: string where "RoleMayor = ''mayor''"
definition RoleDeacon :: string where "RoleDeacon = ''deacon''"
definition RoleWitness :: string where "RoleWitness = ''witness''"
definition RoleRefinery :: string where "RoleRefinery = ''refinery''"
definition RoleCrew :: string where "RoleCrew = ''crew''"
definition RolePolecat :: string where "RolePolecat = ''polecat''"

record AgentIdentity =
  Role :: string
  Town :: string
  Rig :: string
  Name :: string

datatype ParseError = MissingPrefix | EmptyAfterPrefix | ExpectedTwoParts | CannotDetermine

text \<open>The loop that looks for the crew marker: the first index \<open>i\<close> with
  \<^verbatim>\<open>p == "crew" && i > 0 && i < len(parts)-1\<close>. The second argument is the index of the
  head of the third, the part of the list still to visit.\<close>

fun crewMarker :: "string list \<Rightarrow> nat \<Rightarrow> string list \<Rightarrow> nat option" where
  "crewMarker parts i [] = None"
| "crewMarker parts i (p # ps) =
     (if p = ''crew'' \<and> i > 0 \<and> int i < int (length parts) - 1 then Some i
      else crewMarker parts (Suc i) ps)"

definition ParseSessionName :: "string \<Rightarrow> ParseError + AgentIdentity" where
  "ParseSessionName session =
     (if \<not> strings_HasPrefix session Prefix then Inl MissingPrefix
      else
        let suffix = strings_TrimPrefix session Prefix in
        if suffix = [] then Inl EmptyAfterPrefix
        else
          let parts = strings_Split suffix ''-'' in
          if length parts < 2 then Inl ExpectedTwoParts
          else if last parts = ''mayor'' then
            Inr \<lparr>Role = RoleMayor, Town = strings_Join (butlast parts) ''-'', Rig = [], Name = []\<rparr>
          else if last parts = ''deacon'' then
            Inr \<lparr>Role = RoleDeacon, Town = strings_Join (butlast parts) ''-'', Rig = [], Name = []\<rparr>
          else if last parts = ''witness'' then
            Inr \<lparr>Role = RoleWitness, Town = [], Rig = strings_Join (butlast parts) ''-'', Name = []\<rparr>
          else if last parts = ''refinery'' then
            Inr \<lparr>Role = RoleRefinery, Town = [], Rig = strings_Join (butlast parts) ''-'', Name = []\<rparr>
          else
            case crewMarker parts 0 parts of
              Some i \<Rightarrow>
                Inr \<lparr>Role = RoleCrew, Town = [], Rig = strings_Join (take i parts) ''-'',
                     Name = strings_Join (drop (Suc i) parts) ''-''\<rparr>
            | None \<Rightarrow>
                if length parts < 2 then Inl CannotDetermine
                else Inr \<lparr>Role = RolePolecat, Town = [],
                          Rig = strings_Join (butlast parts) ''-'', Name = last parts\<rparr>)"

text \<open>The method \<^verbatim>\<open>(*AgentIdentity).SessionName\<close>.\<close>

definition AgentIdentity_SessionName :: "AgentIdentity \<Rightarrow> string" where
  "AgentIdentity_SessionName a =
     (if AgentIdentity.Role a = RoleMayor then MayorSessionName (Town a)
      else if AgentIdentity.Role a = RoleDeacon then DeaconSessionName (Town a)
      else if AgentIdentity.Role a = RoleWitness then WitnessSessionName (Rig a)
      else if AgentIdentity.Role a = RoleRefinery then RefinerySessionName (Rig a)
      else if AgentIdentity.Role a = RoleCrew then CrewSessionName (Rig a) (Name a)
      else if AgentIdentity.Role a = RolePolecat then PolecatSessionName (Rig a) (Name a)
      else [])"

section \<open>Lifecycle requests (package daemon, lifecycle processing)\<close>

definition MaxLifecycleMessageAge :: Duration where
  "MaxLifecycleMessageAge = 6 * Hour"

text \<open>\<^verbatim>\<open>LifecycleAction\<close> is a string type with three named values.\<close>

definition ActionCycle :: string where "ActionCycle = ''cycle''"
definition ActionRestart :: string where "ActionRestart = ''restart''"
definition ActionShutdown :: string where "ActionShutdown = ''shutdown''"

record LifecycleRequest =
  From :: string
  Action :: string
  Timestamp :: Time

text \<open>
  \<^verbatim>\<open>parseLifecycleRequest\<close>. \<open>jsonLifecycleBody env\<close> stands for \<^verbatim>\<open>json.Unmarshal\<close> into a
  \<^verbatim>\<open>LifecycleBody\<close>: \<open>None\<close> when it returns an error, else the decoded \<^verbatim>\<open>Action\<close>.
  \<open>None\<close> as result is the nil request.
\<close>

definition parseLifecycleRequest :: "Env \<Rightarrow> World \<Rightarrow> BeadsMessage \<Rightarrow> LifecycleRequest option" where
  "parseLifecycleRequest env w msg =
     (let subject = strings_ToLower env (Subject msg) in
      if \<not> strings_HasPrefix subject ''lifecycle:'' then None
      else
        let body =
          (case jsonLifecycleBody env (Body msg) of
             Some a \<Rightarrow> Some a
           | None \<Rightarrow>
               (let bodyLower = strings_ToLower env (strings_TrimSpace env (Body msg)) in
                if bodyLower = ''restart'' \<or> bodyLower = ''action: restart'' then Some ''restart''
                else if bodyLower = ''shutdown'' \<or> bodyLower = ''action: shutdown''
                        \<or> bodyLower = ''stop'' then Some ''shutdown''
                else if bodyLower = ''cycle'' \<or> bodyLower = ''action: cycle'' then Some ''cycle''
                else None))
        in case body of
             None \<Rightarrow> None
           | Some bodyAction \<Rightarrow>
               (let a = strings_ToLower env bodyAction in
                if a = ''restart'' then
                  Some \<lparr>From = BeadsMessage.From msg, Action = ActionRestart, Timestamp = clock w\<rparr>
                else if a = ''shutdown'' \<or> a = ''stop'' then
                  Some \<lparr>From = BeadsMessage.From msg, Action = ActionShutdown, Timestamp = clock w\<rparr>
                else if a = ''cycle'' then
                  Some \<lparr>From = BeadsMessage.From msg, Action = ActionCycle, Timestamp = clock w\<rparr>
                else None))"

record ParsedIdentity =
  RoleType :: string
  RigName :: string
  AgentName :: string

text \<open>\<^verbatim>\<open>parseIdentity\<close>; \<open>None\<close> is the error "unknown identity format".\<close>

definition parseIdentity :: "string \<Rightarrow> ParsedIdentity option" where
  "parseIdentity identity =
     (if identity = ''mayor'' then Some \<lparr>RoleType = ''mayor'', RigName = [], AgentName = []\<rparr>
      else if identity = ''deacon'' then Some \<lparr>RoleType = ''deacon'', RigName = [], AgentName = []\<rparr>
      else if strings_HasSuffix identity ''-witness'' then
        Some \<lparr>RoleType = ''witness'', RigName = strings_TrimSuffix identity ''-witness'',
              AgentName = []\<rparr>
      else if strings_HasSuffix identity ''-refinery'' then
        Some \<lparr>RoleType = ''refinery'', RigName = strings_TrimSuffix identity ''-refinery'',
              AgentName = []\<rparr>
      else if strings_Contains identity ''-crew-''
              \<and> length (strings_SplitN2 identity ''-crew-'') = 2 then
        (let parts = strings_SplitN2 identity ''-crew-'' in
         Some \<lparr>RoleType = ''crew'', RigName = parts ! 0, AgentName = parts ! 1\<rparr>)
      else if strings_Contains identity ''-polecat-''
              \<and> length (strings_SplitN2 identity ''-polecat-'') = 2 then
        (let parts = strings_SplitN2 identity ''-polecat-'' in
         Some \<lparr>RoleType = ''polecat'', RigName = parts ! 0, AgentName = parts ! 1\<rparr>)
      else if strings_Contains identity ''/polecats/''
              \<and> length (strings_Split identity ''/polecats/'') = 2 then
        (let parts = strings_Split identity ''/polecats/'' in
         Some \<lparr>RoleType = ''polecat'', RigName = parts ! 0, AgentName = parts ! 1\<rparr>)
      else None)"

text \<open>\<^verbatim>\<open>getRoleConfigForIdentity\<close>: \<open>GetRoleConfig env\<close> stands for the lookup of the role
  bead's configuration by role type (\<open>None\<close>: no configuration, with or without an error).\<close>

definition getRoleConfigForIdentity :: "Env \<Rightarrow> string \<Rightarrow> (RoleConfig option \<times> ParsedIdentity) option" where
  "getRoleConfigForIdentity env identity =
     (case parseIdentity identity of
        None \<Rightarrow> None
      | Some parsed \<Rightarrow> Some (GetRoleConfig env (RoleType parsed), parsed))"

definition identityToSession :: "Env \<Rightarrow> string \<Rightarrow> string" where
  "identityToSession env identity =
     (case getRoleConfigForIdentity env identity of
        None \<Rightarrow> []
      | Some (config, parsed) \<Rightarrow>
          (case (case config of Some c \<Rightarrow> if SessionPattern c \<noteq> [] then Some c else None
                               | None \<Rightarrow> None) of
             Some c \<Rightarrow>
               ExpandRolePattern env (SessionPattern c) (TownRoot env)
                 (ParsedIdentity.RigName parsed) (AgentName parsed) (RoleType parsed)
           | None \<Rightarrow>
               if RoleType parsed = ''mayor'' then
                 (case GetTownName env of Some townName \<Rightarrow> MayorSessionName townName | None \<Rightarrow> [])
               else if RoleType parsed = ''deacon'' then
                 (case GetTownName env of Some townName \<Rightarrow> DeaconSessionName townName | None \<Rightarrow> [])
               else if RoleType parsed = ''witness'' \<or> RoleType parsed = ''refinery'' then
                 ''gt-'' @ ParsedIdentity.RigName parsed @ ''-'' @ RoleType parsed
               else if RoleType parsed = ''crew'' then
                 ''gt-'' @ ParsedIdentity.RigName parsed @ ''-crew-'' @ AgentName parsed
               else if RoleType parsed = ''polecat'' then
                 ''gt-'' @ ParsedIdentity.RigName parsed @ ''-'' @ AgentName parsed
               else []))"

definition getWorkDir :: "Env \<Rightarrow> RoleConfig option \<Rightarrow> ParsedIdentity \<Rightarrow> string" where
  "getWorkDir env config parsed =
     (case (case config of Some c \<Rightarrow> if WorkDirPattern c \<noteq> [] then Some c else None
                          | None \<Rightarrow> None) of
        Some c \<Rightarrow>
          ExpandRolePattern env (WorkDirPattern c) (TownRoot env)
            (ParsedIdentity.RigName parsed) (AgentName parsed) (RoleType parsed)
      | None \<Rightarrow>
          if RoleType parsed = ''mayor'' then TownRoot env
          else if RoleType parsed = ''deacon'' then TownRoot env
          else if RoleType parsed = ''witness'' then
            filepath_Join [TownRoot env, ParsedIdentity.RigName parsed]
          else if RoleType parsed = ''refinery'' then
            filepath_Join [TownRoot env, ParsedIdentity.RigName parsed, ''refinery'', ''rig'']
          else if RoleType parsed = ''crew'' then
            filepath_Join [TownRoot env, ParsedIdentity.RigName parsed, ''crew'', AgentName parsed]
          else if RoleType parsed = ''polecat'' then
            filepath_Join [TownRoot env, ParsedIdentity.RigName parsed, ''polecats'', AgentName parsed]
          else [])"

definition getNeedsPreSync :: "RoleConfig option \<Rightarrow> ParsedIdentity \<Rightarrow> bool" where
  "getNeedsPreSync config parsed =
     (case config of
        Some c \<Rightarrow> NeedsPreSync c
      | None \<Rightarrow> RoleType parsed = ''refinery'' \<or> RoleType parsed = ''crew''
                 \<or> RoleType parsed = ''polecat'')"

definition getStartCommand :: "Env \<Rightarrow> RoleConfig option \<Rightarrow> ParsedIdentity \<Rightarrow> string" where
  "getStartCommand env roleConfig parsed =
     (case (case roleConfig of Some c \<Rightarrow> if StartCommand c \<noteq> [] then Some c else None
                              | None \<Rightarrow> None) of
        Some c \<Rightarrow>
          ExpandRolePattern env (StartCommand c) (TownRoot env)
            (ParsedIdentity.RigName parsed) (AgentName parsed) (RoleType parsed)
      | None \<Rightarrow>
          (let defaultCmd = ''exec '' @ GetRuntimeCommand env in
           if RoleType parsed = ''polecat'' then
             BuildPolecatStartupCommand env (ParsedIdentity.RigName parsed) (AgentName parsed)
           else defaultCmd))"

text \<open>Several commands in a row whose errors are ignored.\<close>

fun execAll :: "Env \<Rightarrow> Cmd list \<Rightarrow> World \<Rightarrow> World" where
  "execAll env [] w = w"
| "execAll env (c # cs) w = execAll env cs (snd (exec env c w))"

definition identityToBDActor :: "string \<Rightarrow> string" where
  "identityToBDActor identity =
     (if strings_Contains identity ''/polecats/'' \<or> strings_Contains identity ''/crew/''
         \<or> strings_Contains identity ''/witness'' \<or> strings_Contains identity ''/refinery''
      then identity
      else case parseIdentity identity of
             None \<Rightarrow> identity
           | Some parsed \<Rightarrow>
               if RoleType parsed = ''mayor'' \<or> RoleType parsed = ''deacon'' then RoleType parsed
               else if RoleType parsed = ''witness'' then ParsedIdentity.RigName parsed @ ''/witness''
               else if RoleType parsed = ''refinery'' then ParsedIdentity.RigName parsed @ ''/refinery''
               else if RoleType parsed = ''crew'' then
                 ParsedIdentity.RigName parsed @ ''/crew/'' @ AgentName parsed
               else if RoleType parsed = ''polecat'' then
                 ParsedIdentity.RigName parsed @ ''/polecats/'' @ AgentName parsed
               else identity)"

definition setSessionEnvironment ::
  "Env \<Rightarrow> string \<Rightarrow> string \<Rightarrow> RoleConfig option \<Rightarrow> ParsedIdentity \<Rightarrow> World \<Rightarrow> World" where
  "setSessionEnvironment env sessionName identity config parsed w =
     execAll env
       ([SetEnvironment sessionName ''GT_ROLE'' identity,
         SetEnvironment sessionName ''BD_ACTOR'' (identityToBDActor identity)]
        @ (case config of
             None \<Rightarrow> []
           | Some c \<Rightarrow>
               map (\<lambda>(k, v). SetEnvironment sessionName k
                      (ExpandRolePattern env v (TownRoot env) (ParsedIdentity.RigName parsed)
                         (AgentName parsed) (RoleType parsed)))
                   (EnvVars c)))
       w"

text \<open>\<^verbatim>\<open>applySessionTheme\<close>; the theme itself is presentation and not kept.\<close>

definition applySessionTheme :: "Env \<Rightarrow> string \<Rightarrow> ParsedIdentity \<Rightarrow> World \<Rightarrow> World" where
  "applySessionTheme env sessionName parsed w =
     (if RoleType parsed = ''mayor'' then
        snd (exec env (ConfigureGasTownSession sessionName [] ''Mayor'' ''coordinator'') w)
      else if ParsedIdentity.RigName parsed \<noteq> [] then
        snd (exec env (ConfigureGasTownSession sessionName (ParsedIdentity.RigName parsed)
                         (RoleType parsed) (RoleType parsed)) w)
      else w)"

definition syncWorkspace :: "Env \<Rightarrow> string \<Rightarrow> World \<Rightarrow> World" where
  "syncWorkspace env workDir w =
     execAll env [GitFetch workDir, GitPullRebase workDir, BdSync workDir] w"

datatype RestartError = ParsingIdentity | NoWorkingDirectory | CreatingSession | SendingStartupCommand

definition restartSession :: "Env \<Rightarrow> string \<Rightarrow> string \<Rightarrow> World \<Rightarrow> RestartError option \<times> World" where
  "restartSession env sessionName identity w =
     (case getRoleConfigForIdentity env identity of
        None \<Rightarrow> (Some ParsingIdentity, w)
      | Some (config, parsed) \<Rightarrow>
          (let workDir = getWorkDir env config parsed in
           if workDir = [] then (Some NoWorkingDirectory, w)
           else
             let needsPreSync = getNeedsPreSync config parsed;
                 w = (if needsPreSync then syncWorkspace env workDir w else w);
                 (ok, w) = exec env (EnsureSessionFresh sessionName workDir) w
             in if \<not> ok then (Some CreatingSession, w)
                else
                  let w = setSessionEnvironment env sessionName identity config parsed w;
                      w = applySessionTheme env sessionName parsed w;
                      startCmd = getStartCommand env config parsed;
                      (ok, w) = exec env (SendKeys sessionName startCmd) w
                  in if \<not> ok then (Some SendingStartupCommand, w)
                     else
                       let w = snd (exec env (WaitForCommand sessionName) w);
                           w = snd (exec env (AcceptBypassPermissionsWarning sessionName) w)
                       in (None, w)))"

text \<open>\<^verbatim>\<open>closeMessage\<close>: \<open>True\<close> when \<^verbatim>\<open>gt mail delete\<close> returned no error.\<close>

definition closeMessage :: "Env \<Rightarrow> string \<Rightarrow> World \<Rightarrow> bool \<times> World" where
  "closeMessage env i w = exec env (MailDelete i) w"

definition identityToStateFile :: "Env \<Rightarrow> string \<Rightarrow> string" where
  "identityToStateFile env identity =
     (case parseIdentity identity of
        None \<Rightarrow> []
      | Some parsed \<Rightarrow>
          (let workDir = getWorkDir env None parsed in
           if workDir = [] then []
           else if RoleType parsed = ''mayor'' then
             filepath_Join [TownRoot env, ''mayor'', ''state.json'']
           else if RoleType parsed = ''deacon'' then
             filepath_Join [TownRoot env, ''deacon'', ''state.json'']
           else if RoleType parsed = ''witness'' then
             filepath_Join [TownRoot env, ParsedIdentity.RigName parsed, ''witness'', ''state.json'']
           else if RoleType parsed = ''refinery'' then
             filepath_Join [TownRoot env, ParsedIdentity.RigName parsed, ''refinery'', ''state.json'']
           else filepath_Join [workDir, ''state.json'']))"

datatype VerifyError =
    StateFileNotFound string
  | ReadingAgentState
  | ParsingAgentState
  | MissingField string
  | NotTrue string

text \<open>\<^verbatim>\<open>verifyAgentRequestingState\<close>; \<open>None\<close> is the nil error.\<close>

definition verifyAgentRequestingState :: "Env \<Rightarrow> World \<Rightarrow> string \<Rightarrow> string \<Rightarrow> VerifyError option" where
  "verifyAgentRequestingState env w identity action =
     (let stateFile = identityToStateFile env identity in
      if stateFile = [] then None
      else case files w stateFile of
             None \<Rightarrow> Some (StateFileNotFound stateFile)
           | Some Unreadable \<Rightarrow> Some ReadingAgentState
           | Some (Content Malformed) \<Rightarrow> Some ParsingAgentState
           | Some (Content (JObject state)) \<Rightarrow>
               (let key = ''requesting_'' @ action in
                case map_of state key of
                  None \<Rightarrow> Some (MissingField key)
                | Some val \<Rightarrow>
                    (case val of
                       Some requesting \<Rightarrow> if \<not> requesting then Some (NotTrue key) else None
                     | None \<Rightarrow> Some (NotTrue key))))"

datatype ClearError = NoStateFile | ReadingStateFile | ParsingState | WritingStateFile

definition clearAgentRequestingState ::
  "Env \<Rightarrow> string \<Rightarrow> string \<Rightarrow> World \<Rightarrow> ClearError option \<times> World" where
  "clearAgentRequestingState env identity action w =
     (let stateFile = identityToStateFile env identity in
      if stateFile = [] then (Some NoStateFile, w)
      else case files w stateFile of
             None \<Rightarrow> (Some ReadingStateFile, w)
           | Some Unreadable \<Rightarrow> (Some ReadingStateFile, w)
           | Some (Content Malformed) \<Rightarrow> (Some ParsingState, w)
           | Some (Content (JObject state)) \<Rightarrow>
               (let key = ''requesting_'' @ action;
                    state = filter (\<lambda>kv. fst kv \<noteq> key) state;
                    state = filter (\<lambda>kv. fst kv \<noteq> ''requesting_time'') state;
                    (ok, w) = exec env (WriteFile stateFile state) w
                in if \<not> ok then (Some WritingStateFile, w) else (None, w)))"

datatype LifecycleError =
    UnknownAgentIdentity string
  | StateVerificationFailed VerifyError
  | CheckingSession
  | KillingSession
  | RestartingSession RestartError
  | UnknownAction string

text \<open>
  \<^verbatim>\<open>executeLifecycleAction\<close>. The look at the agent bead between the verification and the
  session check only feeds the logger and is left out; \<^verbatim>\<open>time.Sleep\<close> moves the clock
  (not at all for a duration that is not positive).
\<close>

definition executeLifecycleAction ::
  "Env \<Rightarrow> LifecycleRequest \<Rightarrow> World \<Rightarrow> LifecycleError option \<times> World" where
  "executeLifecycleAction env request w =
     (let sessionName = identityToSession env (From request) in
      if sessionName = [] then (Some (UnknownAgentIdentity (From request)), w)
      else case verifyAgentRequestingState env w (From request) (Action request) of
             Some err \<Rightarrow> (Some (StateVerificationFailed err), w)
           | None \<Rightarrow>
               (case tmux_HasSession env sessionName w of
                  None \<Rightarrow> (Some CheckingSession, w)
                | Some running \<Rightarrow>
                    if Action request = ActionShutdown then
                      (if running then
                         (let (ok, w) = exec env (KillSession sessionName) w
                          in if \<not> ok then (Some KillingSession, w) else (None, w))
                       else (None, w))
                    else if Action request = ActionCycle \<or> Action request = ActionRestart then
                      (let (killed, w) =
                             (if running then
                                (let (ok, w) = exec env (KillSession sessionName) w
                                 in if \<not> ok then (False, w)
                                    else (True, w\<lparr>clock := clock w + max 0 (ShutdownNotifyDelay env)\<rparr>))
                              else (True, w))
                       in if \<not> killed then (Some KillingSession, w)
                          else case restartSession env sessionName (From request) w of
                                 (Some err, w) \<Rightarrow> (Some (RestartingSession err), w)
                               | (None, w) \<Rightarrow>
                                   (None, snd (clearAgentRequestingState env (From request)
                                                 (Action request) w)))
                    else (Some (UnknownAction (Action request)), w)))"

text \<open>
  The body of the loop of \<^verbatim>\<open>ProcessLifecycleRequests\<close> for one message of the fetched
  list, and the three ways it can go.
\<close>

datatype Outcome = Skipped | DiscardedStale | Executed "LifecycleError option"

definition staleMessage :: "Env \<Rightarrow> World \<Rightarrow> BeadsMessage \<Rightarrow> bool" where
  "staleMessage env w msg =
     (case parseRFC3339 env (BeadsMessage.Timestamp msg) of
        None \<Rightarrow> False
      | Some msgTime \<Rightarrow> time_Since (clock w) msgTime > MaxLifecycleMessageAge)"

definition processMessage :: "Env \<Rightarrow> BeadsMessage \<Rightarrow> World \<Rightarrow> Outcome \<times> World" where
  "processMessage env msg w =
     (if Read msg then (Skipped, w)
      else case parseLifecycleRequest env w msg of
             None \<Rightarrow> (Skipped, w)
           | Some request \<Rightarrow>
               if staleMessage env w msg then
                 (DiscardedStale, snd (closeMessage env (ID msg) w))
               else
                 (let w = snd (closeMessage env (ID msg) w);
                      (err, w) = executeLifecycleAction env request w
                  in (Executed err, w)))"

fun processMessages :: "Env \<Rightarrow> BeadsMessage list \<Rightarrow> World \<Rightarrow> World" where
  "processMessages env [] w = w"
| "processMessages env (msg # rest) w = processMessages env rest (snd (processMessage env msg w))"

text \<open>\<^verbatim>\<open>ProcessLifecycleRequests\<close>: fetch the inbox (an error, an empty answer or an
  answer that does not decode end the call), then visit the messages in order.\<close>

definition ProcessLifecycleRequests :: "Env \<Rightarrow> World \<Rightarrow> World" where
  "ProcessLifecycleRequests env w =
     (if fails env (length (trace w)) MailInbox then w
      else processMessages env (inbox w) w)"

section \<open>Vocabulary of the properties\<close>

text \<open>\<open>grows w w'\<close>: \<open>w'\<close> comes from \<open>w\<close> by issuing commands, none of them to the
  mailbox.\<close>

definition grows :: "World \<Rightarrow> World \<Rightarrow> bool" where
  "grows w w' = (prefix (trace w) (trace w') \<and> inbox w' = inbox w)"


text \<open>The last segments that \<^verbatim>\<open>ParseSessionName\<close> reads as a role.\<close>

definition marker_words :: "string set" where
  "marker_words = {''mayor'', ''deacon'', ''witness'', ''refinery''}"

text \<open>
  The identities whose session name reads back as themselves: the fields the role does
  not use are empty, and the name and the rig contain no segment that the parser takes for
  a marker. A segment is what stands between two hyphens.
\<close>

definition session_unambiguous :: "AgentIdentity \<Rightarrow> bool" where
  "session_unambiguous a =
     (if AgentIdentity.Role a = RoleMayor \<or> AgentIdentity.Role a = RoleDeacon then
        Rig a = [] \<and> Name a = []
      else if AgentIdentity.Role a = RoleWitness \<or> AgentIdentity.Role a = RoleRefinery then
        Town a = [] \<and> Name a = []
      else if AgentIdentity.Role a = RoleCrew then
        Town a = [] \<and> last (strings_Split (Name a) ''-'') \<notin> marker_words
        \<and> ''crew'' \<notin> set (tl (strings_Split (Rig a) ''-''))
      else if AgentIdentity.Role a = RolePolecat then
        Town a = [] \<and> CHR ''-'' \<notin> set (Name a) \<and> Name a \<notin> marker_words
        \<and> ''crew'' \<notin> set (tl (strings_Split (Rig a) ''-''))
      else False)"

section \<open>A deployment for the examples\<close>

text \<open>
  \<^verbatim>\<open>strings.ToLower\<close> and \<^verbatim>\<open>strings.TrimSpace\<close> on ASCII text; the environment of the
  examples uses them, the theorems hold for whatever the environment supplies.
\<close>

definition ascii_ToLower :: "string \<Rightarrow> string" where
  "ascii_ToLower s =
     map (\<lambda>c. let n = (of_char c :: nat) in if 65 \<le> n \<and> n \<le> 90 then char_of (n + 32) else c) s"

definition ascii_space :: "char \<Rightarrow> bool" where
  "ascii_space c = (c \<in> set [CHR '' '', CHR 0x09, CHR 0x0A, CHR 0x0B, CHR 0x0C, CHR 0x0D])"

definition ascii_TrimSpace :: "string \<Rightarrow> string" where
  "ascii_TrimSpace s = rev (dropWhile ascii_space (rev (dropWhile ascii_space s)))"

text \<open>A town \<^verbatim>\<open>ai\<close> rooted at \<^verbatim>\<open>/town\<close> with one rig, no role beads, and no failing
  command. The witness's last patrol ended twenty minutes before noon; the deacon has no
  agent bead.\<close>

definition sampleEnv :: Env where
  "sampleEnv =
     \<lparr>TownRoot = ''/town'',
      fails = (\<lambda>n c. False),
      GetTownName = Some ''ai'',
      GetRoleConfig = (\<lambda>roleType. None),
      ExpandRolePattern = (\<lambda>pattern townRoot rig name role. pattern),
      GetRuntimeCommand = ''claude'',
      BuildPolecatStartupCommand = (\<lambda>rig name. ''exec claude''),
      strings_ToLower = ascii_ToLower,
      strings_TrimSpace = ascii_TrimSpace,
      jsonLifecycleBody = (\<lambda>body. if body = ''{\"action\": \"cycle\"}'' then Some ''cycle'' else None),
      parseRFC3339 =
        (\<lambda>s. if s = ''2025-06-01T11:40:00Z'' then Some (noon - 20 * Minute)
             else if s = ''2025-06-01T11:00:00Z'' then Some (noon - Hour)
             else if s = ''2025-06-01T05:00:00Z'' then Some (noon - 7 * Hour)
             else None),
      bdShow =
        (\<lambda>i. if i = ''gt-gastown-witness''
             then Some [\<lparr>issue_type = ''agent'', labels = [''last_activity:2025-06-01T11:40:00Z'']\<rparr>]
             else None),
      getDeaconSessionName = ''gt-ai-deacon'',
      getKnownRigs = [''gastown''],
      ShutdownNotifyDelay = Second\<rparr>"

text \<open>The same deployment with a mailbox that refuses to delete, and with a session manager
  whose probe of the deacon session fails.\<close>

definition deleteFailsEnv :: Env where
  "deleteFailsEnv = sampleEnv\<lparr>fails := (\<lambda>n c. case c of MailDelete i \<Rightarrow> True | _ \<Rightarrow> False)\<rparr>"

definition probeFailsEnv :: Env where
  "probeFailsEnv = sampleEnv\<lparr>fails := (\<lambda>n c. c = HasSession ''gt-ai-deacon'')\<rparr>"

text \<open>Two requests of the witness: one an hour old, one seven hours old.\<close>

definition cycleRequest :: BeadsMessage where
  "cycleRequest =
     \<lparr>ID = ''msg-1'', From = ''gastown-witness'', To = ''deacon/'', Subject = ''LIFECYCLE: cycle'',
      Body = ''{\"action\": \"cycle\"}'', Timestamp = ''2025-06-01T11:00:00Z'', Read = False,
      Priority = ''normal'', Type = ''task''\<rparr>"

definition staleRequest :: BeadsMessage where
  "staleRequest =
     \<lparr>ID = ''msg-2'', From = ''gastown-witness'', To = ''deacon/'', Subject = ''LIFECYCLE: restart'',
      Body = ''restart'', Timestamp = ''2025-06-01T05:00:00Z'', Read = False,
      Priority = ''normal'', Type = ''task''\<rparr>"

text \<open>At noon: witness, deacon and mayor sessions are alive, both requests are in the
  inbox, and the witness has staged \<^verbatim>\<open>requesting_cycle\<close>.\<close>

definition sampleWorld :: World where
  "sampleWorld =
     \<lparr>sessions = {''gt-gastown-witness'', ''gt-ai-deacon'', ''gt-ai-mayor''},
      inbox = [cycleRequest, staleRequest],
      files = [''/town/gastown/witness/state.json''
                 \<mapsto> Content (JObject [(''requesting_cycle'', Some True)])],
      clock = noon,
      trace = []\<rparr>"

text \<open>The same world in which the witness has written \<^verbatim>\<open>requesting_cycle: false\<close>.\<close>

definition unstagedWorld :: World where
  "unstagedWorld =
     sampleWorld\<lparr>files := [''/town/gastown/witness/state.json''
                              \<mapsto> Content (JObject [(''requesting_cycle'', Some False)])]\<rparr>"

definition cycleWitness :: LifecycleRequest where
  "cycleWitness = \<lparr>From = ''gastown-witness'', Action = ActionCycle, Timestamp = noon\<rparr>"

section \<open>Health evaluation: theorems\<close>

lemma time_Since_ge_iff:
  assumes "minDuration < d" and "d \<le> maxDuration"
  shows "(d \<le> time_Since now t) = (d \<le> now - t)"
  using assms by (auto simp add: time_Since_def time_Sub_def)

text \<open>
  C2. When the probe reports the session dead, the status is \<open>needs_respawn\<close> if no
  death time is recorded or the time since the recorded death, as \<^verbatim>\<open>time.Since\<close> reads it,
  is at least the configured respawn delay, and \<open>waiting_respawn\<close> otherwise. The
  heartbeat plays no part: the environment, which supplies it, is arbitrary. For every
  delay a Duration can hold except the smallest, the time \<^verbatim>\<open>time.Since\<close> reads can be
  replaced by the true difference of the two instants.
\<close>

theorem dead_session_status:
  assumes "tmux_HasSession env (SessionName config) w = Some False"
  shows "Status (checkAgentHealth env w config) =
           (if IsZero (LastDeath config)
               \<or> RespawnDelay config \<le> time_Since (clock w) (LastDeath config)
            then StatusNeedsRespawn else StatusWaitingRespawn)
       \<and> (minDuration < RespawnDelay config \<and> RespawnDelay config \<le> maxDuration \<longrightarrow>
            Status (checkAgentHealth env w config) =
              (if IsZero (LastDeath config) \<or> RespawnDelay config \<le> clock w - LastDeath config
               then StatusNeedsRespawn else StatusWaitingRespawn))"
proof -
  have s: "Status (checkAgentHealth env w config) =
           (if IsZero (LastDeath config)
               \<or> RespawnDelay config \<le> time_Since (clock w) (LastDeath config)
            then StatusNeedsRespawn else StatusWaitingRespawn)"
    using assms by (simp add: checkAgentHealth_def respawnDelayElapsed_def Let_def)
  show ?thesis
    unfolding s by (simp add: time_Since_ge_iff)
qed

theorem dead_session_status_witness:
  "tmux_HasSession sampleEnv (SessionName (refineryConfig 0)) sampleWorld = Some False
   \<and> Status (checkAgentHealth sampleEnv sampleWorld (refineryConfig 0)) = StatusNeedsRespawn
   \<and> Status (checkAgentHealth sampleEnv sampleWorld (refineryConfig (30 * Second)))
       = StatusWaitingRespawn"
proof -
  have h0: "tmux_HasSession sampleEnv (SessionName (refineryConfig 0)) sampleWorld = Some False"
    by code_simp
  have h1: "tmux_HasSession sampleEnv (SessionName (refineryConfig (30 * Second))) sampleWorld
              = Some False"
    by code_simp
  have e0: "(if IsZero (LastDeath (refineryConfig 0))
               \<or> RespawnDelay (refineryConfig 0)
                   \<le> time_Since (clock sampleWorld) (LastDeath (refineryConfig 0))
             then StatusNeedsRespawn else StatusWaitingRespawn) = StatusNeedsRespawn"
    by code_simp
  have e1: "(if IsZero (LastDeath (refineryConfig (30 * Second)))
               \<or> RespawnDelay (refineryConfig (30 * Second))
                   \<le> time_Since (clock sampleWorld) (LastDeath (refineryConfig (30 * Second)))
             then StatusNeedsRespawn else StatusWaitingRespawn) = StatusWaitingRespawn"
    by code_simp
  from dead_session_status [OF h0] dead_session_status [OF h1] h0 show ?thesis
    by (simp only: e0 e1)
qed

text \<open>
  C3. When the probe reports the session alive: a heartbeat age of at most the stuck
  threshold gives \<open>healthy\<close>; an age above the threshold with a recorded heartbeat gives
  \<open>stuck\<close>; and with no heartbeat recorded the status is \<open>healthy\<close> whatever the
  threshold (the age is then reported as zero). The age of a recorded heartbeat is what
  \<^verbatim>\<open>time.Since\<close> reads.
\<close>

theorem live_session_status:
  assumes "tmux_HasSession env (SessionName config) w = Some True"
  shows "(HeartbeatAge (checkAgentHealth env w config) \<le> AgentHealthConfig.StuckThreshold config
            \<longrightarrow> Status (checkAgentHealth env w config) = StatusHealthy)
       \<and> (HeartbeatAge (checkAgentHealth env w config) > AgentHealthConfig.StuckThreshold config
            \<and> \<not> IsZero (getLastPatrolCompleted env (AgentHealthConfig.Role config)
                           (AgentHealthConfig.RigName config))
            \<longrightarrow> Status (checkAgentHealth env w config) = StatusStuck)
       \<and> (IsZero (getLastPatrolCompleted env (AgentHealthConfig.Role config)
                     (AgentHealthConfig.RigName config))
            \<longrightarrow> Status (checkAgentHealth env w config) = StatusHealthy
                \<and> HeartbeatAge (checkAgentHealth env w config) = 0)
       \<and> (\<not> IsZero (getLastPatrolCompleted env (AgentHealthConfig.Role config)
                       (AgentHealthConfig.RigName config))
            \<longrightarrow> HeartbeatAge (checkAgentHealth env w config) =
                 time_Since (clock w)
                   (getLastPatrolCompleted env (AgentHealthConfig.Role config)
                      (AgentHealthConfig.RigName config)))"
  using assms by (simp add: checkAgentHealth_def Let_def)

theorem live_session_status_witness:
  "tmux_HasSession sampleEnv (SessionName (witnessConfig (30 * Minute))) sampleWorld = Some True
   \<and> HeartbeatAge (checkAgentHealth sampleEnv sampleWorld (witnessConfig (30 * Minute))) = 20 * Minute
   \<and> Status (checkAgentHealth sampleEnv sampleWorld (witnessConfig (30 * Minute))) = StatusHealthy
   \<and> Status (checkAgentHealth sampleEnv sampleWorld (witnessConfig (10 * Minute))) = StatusStuck
   \<and> IsZero (getLastPatrolCompleted sampleEnv (AgentHealthConfig.Role deaconConfig)
               (AgentHealthConfig.RigName deaconConfig))
   \<and> Status (checkAgentHealth sampleEnv sampleWorld deaconConfig) = StatusHealthy"
proof -
  have a30: "tmux_HasSession sampleEnv (SessionName (witnessConfig (30 * Minute))) sampleWorld
               = Some True"
    by code_simp
  have a10: "tmux_HasSession sampleEnv (SessionName (witnessConfig (10 * Minute))) sampleWorld
               = Some True"
    by code_simp
  have ad: "tmux_HasSession sampleEnv (SessionName deaconConfig) sampleWorld = Some True"
    by code_simp
  have age30: "HeartbeatAge (checkAgentHealth sampleEnv sampleWorld (witnessConfig (30 * Minute)))
                 = 20 * Minute"
    by code_simp
  have age10: "HeartbeatAge (checkAgentHealth sampleEnv sampleWorld (witnessConfig (10 * Minute)))
                 = 20 * Minute"
    by code_simp
  have le: "20 * Minute \<le> AgentHealthConfig.StuckThreshold (witnessConfig (30 * Minute))"
    by code_simp
  have gt: "20 * Minute > AgentHealthConfig.StuckThreshold (witnessConfig (10 * Minute))"
    by code_simp
  have rec: "\<not> IsZero (getLastPatrolCompleted sampleEnv
                         (AgentHealthConfig.Role (witnessConfig (10 * Minute)))
                         (AgentHealthConfig.RigName (witnessConfig (10 * Minute))))"
    by code_simp
  have never: "IsZero (getLastPatrolCompleted sampleEnv (AgentHealthConfig.Role deaconConfig)
                         (AgentHealthConfig.RigName deaconConfig))"
    by code_simp
  from live_session_status [OF a30] age30 le
  have healthy: "Status (checkAgentHealth sampleEnv sampleWorld (witnessConfig (30 * Minute)))
                   = StatusHealthy"
    by simp
  from live_session_status [OF a10] age10 gt rec
  have stuck: "Status (checkAgentHealth sampleEnv sampleWorld (witnessConfig (10 * Minute)))
                 = StatusStuck"
    by simp
  from live_session_status [OF ad] never
  have grace: "Status (checkAgentHealth sampleEnv sampleWorld deaconConfig) = StatusHealthy"
    by simp
  from a30 age30 healthy stuck never grace show ?thesis
    by simp
qed

text \<open>
  C9. When the probe of the session returns an error, the status is \<open>healthy\<close> and the
  message is the diagnostic "error checking session"; the session is reported as not
  alive and no heartbeat is looked up.
\<close>

theorem probe_error_healthy:
  assumes "tmux_HasSession env (SessionName config) w = None"
  shows "Status (checkAgentHealth env w config) = StatusHealthy
       \<and> Message (checkAgentHealth env w config) = MsgProbeError
       \<and> Status (checkAgentHealth env w config)
           \<notin> {StatusNeedsRespawn, StatusWaitingRespawn, StatusStuck}"
  using assms by (simp add: checkAgentHealth_def Let_def)

theorem probe_error_healthy_witness:
  "tmux_HasSession probeFailsEnv (SessionName deaconConfig) sampleWorld = None
   \<and> Status (checkAgentHealth probeFailsEnv sampleWorld deaconConfig) = StatusHealthy
   \<and> Message (checkAgentHealth probeFailsEnv sampleWorld deaconConfig) = MsgProbeError"
proof -
  have h: "tmux_HasSession probeFailsEnv (SessionName deaconConfig) sampleWorld = None"
    by code_simp
  from probe_error_healthy [OF h] h show ?thesis
    by simp
qed

lemma Round_20_Minute: "Duration_Round (20 * Minute) Minute = 20 * Minute"
  by (simp add: Duration_Round_def rem64_def lessThanHalf_def Minute_def Second_def)

lemma exec_trace:
  "trace (snd (exec env c w)) = trace w @ [(c, \<not> fails env (length (trace w)) c)]"
  by (cases c) (simp_all add: exec_def)

text \<open>
  C7. The remediation of a stuck agent records the event and then issues exactly one
  command to the session manager: \<^verbatim>\<open>KillSessionWithProcesses\<close> if and only if the heartbeat
  age exceeds \<open>CriticalStuckThreshold\<close>, which is 30 minutes, and \<^verbatim>\<open>NudgeSession\<close>
  otherwise (the text of the nudge carries the age rounded to the minute, the event the
  age itself); the nudge leaves the set of live sessions as it is, the kill removes the
  session when the session manager reports no error. In particular a live agent whose
  heartbeat is 20 minutes old, checked against a stuck threshold of 10 minutes, is
  classified \<open>stuck\<close> and nudged.
\<close>

theorem stuck_remediation:
  "CriticalStuckThreshold = 30 * Minute
   \<and> map fst (drop (length (trace w)) (trace (handleStuckAgent env config result w))) =
       [LogFeedAgentStuck (AgentHealthConfig.Role config) (AgentHealthConfig.RigName config)
          (SessionName config) (HeartbeatAge result),
        if HeartbeatAge result > 30 * Minute
        then KillSessionWithProcesses (SessionName config)
        else NudgeSession (SessionName config) (Duration_Round (HeartbeatAge result) Minute)]
   \<and> (KillSessionWithProcesses (SessionName config)
         \<in> fst ` set (drop (length (trace w)) (trace (handleStuckAgent env config result w))))
       = (HeartbeatAge result > 30 * Minute)
   \<and> (NudgeSession (SessionName config) (Duration_Round (HeartbeatAge result) Minute)
         \<in> fst ` set (drop (length (trace w)) (trace (handleStuckAgent env config result w))))
       = (\<not> HeartbeatAge result > 30 * Minute)
   \<and> sessions (handleStuckAgent env config result w) =
       (if HeartbeatAge result > 30 * Minute
           \<and> \<not> fails env (Suc (length (trace w))) (KillSessionWithProcesses (SessionName config))
        then sessions w - {SessionName config} else sessions w)
   \<and> (tmux_HasSession env (SessionName config) w = Some True
       \<and> getLastPatrolCompleted env (AgentHealthConfig.Role config)
            (AgentHealthConfig.RigName config) \<noteq> 0
       \<and> time_Since (clock w)
            (getLastPatrolCompleted env (AgentHealthConfig.Role config)
               (AgentHealthConfig.RigName config)) = 20 * Minute
       \<and> AgentHealthConfig.StuckThreshold config = 10 * Minute
       \<longrightarrow> Status (checkAgentHealth env w config) = StatusStuck
           \<and> map fst (drop (length (trace w)) (trace (checkAndHandle env config w))) =
               [LogFeedAgentStuck (AgentHealthConfig.Role config) (AgentHealthConfig.RigName config)
                  (SessionName config) (20 * Minute),
                NudgeSession (SessionName config) (20 * Minute)]
           \<and> sessions (checkAndHandle env config w) = sessions w)"
proof -
  have t: "map fst (drop (length (trace w)) (trace (handleStuckAgent env config result w))) =
       [LogFeedAgentStuck (AgentHealthConfig.Role config) (AgentHealthConfig.RigName config)
          (SessionName config) (HeartbeatAge result),
        if HeartbeatAge result > 30 * Minute
        then KillSessionWithProcesses (SessionName config)
        else NudgeSession (SessionName config) (Duration_Round (HeartbeatAge result) Minute)]" for result
    by (simp add: handleStuckAgent_def exec_def Let_def CriticalStuckThreshold_def)
  have s: "sessions (handleStuckAgent env config result w) =
       (if HeartbeatAge result > 30 * Minute
           \<and> \<not> fails env (Suc (length (trace w))) (KillSessionWithProcesses (SessionName config))
        then sessions w - {SessionName config} else sessions w)" for result
    by (simp add: handleStuckAgent_def exec_def Let_def CriticalStuckThreshold_def)
  have b: "Status (checkAgentHealth env w config) = StatusStuck
           \<and> map fst (drop (length (trace w)) (trace (checkAndHandle env config w))) =
               [LogFeedAgentStuck (AgentHealthConfig.Role config) (AgentHealthConfig.RigName config)
                  (SessionName config) (20 * Minute),
                NudgeSession (SessionName config) (20 * Minute)]
           \<and> sessions (checkAndHandle env config w) = sessions w"
    if alive: "tmux_HasSession env (SessionName config) w = Some True"
      and recorded: "getLastPatrolCompleted env (AgentHealthConfig.Role config)
            (AgentHealthConfig.RigName config) \<noteq> 0"
      and age: "time_Since (clock w)
            (getLastPatrolCompleted env (AgentHealthConfig.Role config)
               (AgentHealthConfig.RigName config)) = 20 * Minute"
      and thr: "AgentHealthConfig.StuckThreshold config = 10 * Minute"
  proof -
    have st: "Status (checkAgentHealth env w config) = StatusStuck"
      using alive recorded age thr
      by (simp add: checkAgentHealth_def Let_def IsZero_def Minute_def Second_def)
    have ha: "HeartbeatAge (checkAgentHealth env w config) = 20 * Minute"
      using alive recorded age thr
      by (simp add: checkAgentHealth_def Let_def IsZero_def Minute_def Second_def)
    have ch: "checkAndHandle env config w =
                handleStuckAgent env config (checkAgentHealth env w config) w"
      by (simp add: checkAndHandle_def Let_def st)
    have low: "\<not> (20 * Minute > 30 * Minute)"
      by (simp add: Minute_def Second_def)
    show ?thesis
      using low unfolding ch by (simp only: st t s ha Round_20_Minute if_False simp_thms)
  qed
  have k: "(KillSessionWithProcesses (SessionName config)
         \<in> fst ` set (drop (length (trace w)) (trace (handleStuckAgent env config result w))))
       = (HeartbeatAge result > 30 * Minute)"
    unfolding set_map [symmetric] t by simp
  have n: "(NudgeSession (SessionName config) (Duration_Round (HeartbeatAge result) Minute)
         \<in> fst ` set (drop (length (trace w)) (trace (handleStuckAgent env config result w))))
       = (\<not> HeartbeatAge result > 30 * Minute)"
    unfolding set_map [symmetric] t by simp
  from t [of result] s [of result] k n b show ?thesis
    by (simp only: CriticalStuckThreshold_def simp_thms) blast
qed

theorem stuck_remediation_witness:
  "tmux_HasSession sampleEnv (SessionName (witnessConfig (10 * Minute))) sampleWorld = Some True
   \<and> Status (checkAgentHealth sampleEnv sampleWorld (witnessConfig (10 * Minute))) = StatusStuck
   \<and> map fst (trace (checkAndHandle sampleEnv (witnessConfig (10 * Minute)) sampleWorld)) =
       [LogFeedAgentStuck ''witness'' ''gastown'' ''gt-gastown-witness'' (20 * Minute),
        NudgeSession ''gt-gastown-witness'' (20 * Minute)]
   \<and> ''gt-gastown-witness'' \<in> sessions (checkAndHandle sampleEnv (witnessConfig (10 * Minute)) sampleWorld)"
proof -
  have alive: "tmux_HasSession sampleEnv (SessionName (witnessConfig (10 * Minute))) sampleWorld
                 = Some True"
    by code_simp
  have recorded: "getLastPatrolCompleted sampleEnv
                    (AgentHealthConfig.Role (witnessConfig (10 * Minute)))
                    (AgentHealthConfig.RigName (witnessConfig (10 * Minute))) \<noteq> 0"
    by code_simp
  have age: "time_Since (clock sampleWorld)
               (getLastPatrolCompleted sampleEnv
                  (AgentHealthConfig.Role (witnessConfig (10 * Minute)))
                  (AgentHealthConfig.RigName (witnessConfig (10 * Minute)))) = 20 * Minute"
    by code_simp
  have thr: "AgentHealthConfig.StuckThreshold (witnessConfig (10 * Minute)) = 10 * Minute"
    by code_simp
  have fields: "AgentHealthConfig.Role (witnessConfig (10 * Minute)) = ''witness''"
    "AgentHealthConfig.RigName (witnessConfig (10 * Minute)) = ''gastown''"
    "SessionName (witnessConfig (10 * Minute)) = ''gt-gastown-witness''"
    by (simp_all add: witnessConfig_def)
  have w0: "trace sampleWorld = []" "''gt-gastown-witness'' \<in> sessions sampleWorld"
    by (simp_all add: sampleWorld_def)
  from stuck_remediation [of sampleWorld sampleEnv "witnessConfig (10 * Minute)"]
    alive recorded age thr
  have "Status (checkAgentHealth sampleEnv sampleWorld (witnessConfig (10 * Minute))) = StatusStuck
     \<and> map fst (drop (length (trace sampleWorld))
                 (trace (checkAndHandle sampleEnv (witnessConfig (10 * Minute)) sampleWorld))) =
               [LogFeedAgentStuck (AgentHealthConfig.Role (witnessConfig (10 * Minute)))
                  (AgentHealthConfig.RigName (witnessConfig (10 * Minute)))
                  (SessionName (witnessConfig (10 * Minute))) (20 * Minute),
                NudgeSession (SessionName (witnessConfig (10 * Minute))) (20 * Minute)]
     \<and> sessions (checkAndHandle sampleEnv (witnessConfig (10 * Minute)) sampleWorld)
         = sessions sampleWorld"
    by blast
  with alive w0 show ?thesis
    by (simp add: fields)
qed

section \<open>Respawn policy and daemon state: theorems\<close>

text \<open>
  C8. \<^verbatim>\<open>GetRespawnConfig\<close> is a total function: there is no error to return. The static
  table has the three keys deacon, witness and refinery, and every other role string gets
  a delay of 5 minutes, a stuck threshold of 15 minutes and the trigger "always".
\<close>

theorem unknown_role_default:
  assumes "role \<notin> dom DefaultRespawnConfigs"
  shows "dom DefaultRespawnConfigs = {''deacon'', ''witness'', ''refinery''}
       \<and> GetRespawnConfig role =
           \<lparr>Delay = 5 * Minute, StuckThreshold = 15 * Minute, Trigger = ''always''\<rparr>"
proof -
  have "dom DefaultRespawnConfigs = {''deacon'', ''witness'', ''refinery''}"
    by (auto simp add: DefaultRespawnConfigs_def split: if_splits)
  moreover from assms have "DefaultRespawnConfigs role = None"
    by (simp add: dom_def)
  ultimately show ?thesis
    by (simp add: GetRespawnConfig_def)
qed

theorem unknown_role_default_witness:
  "''polecat'' \<notin> dom DefaultRespawnConfigs
   \<and> GetRespawnConfig ''polecat'' =
       \<lparr>Delay = 5 * Minute, StuckThreshold = 15 * Minute, Trigger = ''always''\<rparr>"
proof -
  have h: "''polecat'' \<notin> dom DefaultRespawnConfigs"
    by (simp add: DefaultRespawnConfigs_def dom_def)
  from unknown_role_default [OF h] h show ?thesis
    by simp
qed

lemma GetAgentState_found:
  assumes "agents_lookup s agentID = Ref a"
  shows "\<exists>s'. GetAgentState agentID (s, h) = (a, s', h) \<and> agents_lookup s' = agents_lookup s"
proof -
  from assms have "Agents s \<noteq> None"
    by (auto simp add: agents_lookup_def split: option.splits)
  then obtain m where m: "Agents s = Some m"
    by blast
  with assms show ?thesis
    by (simp add: GetAgentState_def)
qed

lemma GetAgentState_fresh:
  assumes "agents_lookup s agentID = Nil"
  shows "\<exists>s'. GetAgentState agentID (s, h) =
            (limit h, s', h\<lparr>objs := (objs h)(limit h := zeroAgentState), limit := Suc (limit h)\<rparr>)
          \<and> agents_lookup s' = (agents_lookup s)(agentID := Ref (limit h))"
proof (cases "Agents s")
  case None
  then show ?thesis
    by (auto simp add: GetAgentState_def agents_lookup_def new_AgentState_def fun_eq_iff)
next
  case (Some m)
  with assms show ?thesis
    by (auto simp add: GetAgentState_def agents_lookup_def new_AgentState_def fun_eq_iff
             split: option.splits)
qed

lemma ScheduleRespawn_unfold:
  assumes "GetAgentState agentID (s, h) = (a, s', h')"
  shows "ScheduleRespawn now agentID session role exitReason (s, h) =
           (s', h'\<lparr>objs := (objs h')(a := (objs h' a)\<lparr>Session := session, ExitReason := exitReason,
                        LastExitedAt := Some now,
                        RespawnScheduledAt := Some (now + Delay (GetRespawnConfig role))\<rparr>)\<rparr>)"
  using assms by (simp add: ScheduleRespawn_def store_update_def time_Add_def Let_def)

lemma agentEntry_pair:
  "agentEntry (s, h) i = (case agents_lookup s i of Nil \<Rightarrow> None | Ref a \<Rightarrow> Some (objs h a))"
  by (simp add: agentEntry_def split: ref.splits)

lemma ok_zero: "state_ok zeroState"
  by (simp add: state_ok_def zeroState_def agents_lookup_def)

lemma GetAgentState_ok:
  assumes ok: "state_ok (s, h)" and g: "GetAgentState agentID (s, h) = (a, s', h')"
  shows "state_ok (s', h') \<and> agents_lookup s' agentID = Ref a \<and> limit h \<le> limit h'"
proof (cases "agents_lookup s agentID")
  case Nil
  from GetAgentState_fresh [OF Nil, of h] g have
    a: "a = limit h" and
    h': "h' = h\<lparr>objs := (objs h)(limit h := zeroAgentState), limit := Suc (limit h)\<rparr>" and
    l: "agents_lookup s' = (agents_lookup s)(agentID := Ref (limit h))"
    by auto
  have below: "\<And>i b. agents_lookup s i = Ref b \<Longrightarrow> b < limit h"
    using ok by (simp add: state_ok_def)
  have inj: "\<And>i j b. agents_lookup s i = Ref b \<Longrightarrow> agents_lookup s j = Ref b \<Longrightarrow> j = i"
    using ok by (simp add: state_ok_def)
  have "state_ok (s', h')"
    unfolding state_ok_def
  proof (intro allI impI conjI)
    fix i b assume ib: "agents_lookup (fst (s', h')) i = Ref b"
    show "b < limit (snd (s', h'))"
      using ib below [of i b] by (auto simp add: l h' split: if_splits)
  next
    fix i b j
    assume ib: "agents_lookup (fst (s', h')) i = Ref b"
       and jb: "agents_lookup (fst (s', h')) j = Ref b"
    show "j = i"
      using ib jb below [of i b] below [of j b] inj [of i b j]
      by (auto simp add: l split: if_splits)
  qed
  then show ?thesis
    by (simp add: l a h')
next
  case (Ref b)
  from GetAgentState_found [OF Ref, of h] g have "a = b" "h' = h" "agents_lookup s' = agents_lookup s"
    by auto
  with ok Ref show ?thesis
    by (simp add: state_ok_def)
qed

lemma state_ok_store_update:
  "state_ok (s, store_update a f h) = state_ok (s, h)"
  by (simp add: state_ok_def store_update_def)

lemma ScheduleRespawn_ok:
  assumes "state_ok sh"
  shows "state_ok (ScheduleRespawn now agentID session role exitReason sh)"
proof (cases sh)
  case (Pair s h)
  obtain a s' h' where g: "GetAgentState agentID (s, h) = (a, s', h')"
    by (cases "GetAgentState agentID (s, h)") auto
  with assms Pair have "state_ok (s', h')"
    using GetAgentState_ok by blast
  then show ?thesis
    by (simp add: Pair ScheduleRespawn_def g Let_def state_ok_store_update)
qed

lemma ClearRespawn_ok:
  assumes "state_ok sh"
  shows "state_ok (ClearRespawn agentID session sh)"
proof (cases sh)
  case (Pair s h)
  obtain a s' h' where g: "GetAgentState agentID (s, h) = (a, s', h')"
    by (cases "GetAgentState agentID (s, h)") auto
  with assms Pair have "state_ok (s', h')"
    using GetAgentState_ok by blast
  then show ?thesis
    by (simp add: Pair ClearRespawn_def g Let_def state_ok_store_update)
qed

lemma UpdatePatrolCompleted_ok:
  assumes "state_ok sh"
  shows "state_ok (UpdatePatrolCompleted now agentID sh)"
proof (cases sh)
  case (Pair s h)
  obtain a s' h' where g: "GetAgentState agentID (s, h) = (a, s', h')"
    by (cases "GetAgentState agentID (s, h)") auto
  with assms Pair have "state_ok (s', h')"
    using GetAgentState_ok by blast
  then show ?thesis
    by (simp add: Pair UpdatePatrolCompleted_def g Let_def state_ok_store_update)
qed

text \<open>
  C10. In a state as the package builds them (no object shared by two keys), after
  \<^verbatim>\<open>ScheduleRespawn(agentID, session, role, exitReason)\<close> at the instant \<open>now\<close> the agent's
  entry holds the session and the exit reason given, \<open>LastExitedAt = now\<close> and
  \<open>RespawnScheduledAt = now + GetRespawnConfig(role).Delay\<close>; its \<open>LastPatrolCompleted\<close>
  is what it was (nothing for a new entry); what is found under every other key is
  unchanged; and the state is again one without sharing.
\<close>

theorem ScheduleRespawn_entry:
  assumes ok: "state_ok sh"
  shows "agentEntry (ScheduleRespawn now agentID session role exitReason sh) agentID =
           Some \<lparr>Session = session,
                 LastPatrolCompleted =
                   (case agentEntry sh agentID of None \<Rightarrow> None | Some e \<Rightarrow> LastPatrolCompleted e),
                 RespawnScheduledAt = Some (now + Delay (GetRespawnConfig role)),
                 LastExitedAt = Some now,
                 ExitReason = exitReason\<rparr>
       \<and> (\<forall>other. other \<noteq> agentID \<longrightarrow>
             agentEntry (ScheduleRespawn now agentID session role exitReason sh) other
               = agentEntry sh other)
       \<and> state_ok (ScheduleRespawn now agentID session role exitReason sh)"
proof -
  have main: "agentEntry (ScheduleRespawn now agentID session role exitReason sh) agentID =
           Some \<lparr>Session = session,
                 LastPatrolCompleted =
                   (case agentEntry sh agentID of None \<Rightarrow> None | Some e \<Rightarrow> LastPatrolCompleted e),
                 RespawnScheduledAt = Some (now + Delay (GetRespawnConfig role)),
                 LastExitedAt = Some now,
                 ExitReason = exitReason\<rparr>
       \<and> (\<forall>other. other \<noteq> agentID \<longrightarrow>
             agentEntry (ScheduleRespawn now agentID session role exitReason sh) other
               = agentEntry sh other)"
  proof (cases sh)
  case (Pair s h)
  show ?thesis
  proof (cases "agents_lookup s agentID")
    case Nil
    from GetAgentState_fresh [OF Nil, of h] obtain s' where
      g: "GetAgentState agentID (s, h) =
            (limit h, s', h\<lparr>objs := (objs h)(limit h := zeroAgentState), limit := Suc (limit h)\<rparr>)"
      and l: "agents_lookup s' = (agents_lookup s)(agentID := Ref (limit h))"
      by blast
    have fresh: "\<And>i a. agents_lookup s i = Ref a \<Longrightarrow> a \<noteq> limit h"
      using ok Pair by (fastforce simp add: state_ok_def)
    have mine: "agentEntry (ScheduleRespawn now agentID session role exitReason sh) agentID =
           Some \<lparr>Session = session, LastPatrolCompleted = None,
                 RespawnScheduledAt = Some (now + Delay (GetRespawnConfig role)),
                 LastExitedAt = Some now, ExitReason = exitReason\<rparr>"
      by (simp add: Pair ScheduleRespawn_unfold [OF g] agentEntry_pair l zeroAgentState_def)
    have before: "agentEntry sh agentID = None"
      by (simp add: Pair agentEntry_pair Nil)
    have others: "agentEntry (ScheduleRespawn now agentID session role exitReason sh) other
               = agentEntry sh other" if "other \<noteq> agentID" for other
    proof (cases "agents_lookup s other")
      case Nil
      with that show ?thesis
        by (simp add: Pair ScheduleRespawn_unfold [OF g] agentEntry_pair l)
    next
      case (Ref b)
      with that fresh [OF Ref] show ?thesis
        by (simp add: Pair ScheduleRespawn_unfold [OF g] agentEntry_pair l)
    qed
    from mine before others show ?thesis
      by simp
  next
    case (Ref a)
    from GetAgentState_found [OF Ref, of h] obtain s' where
      g: "GetAgentState agentID (s, h) = (a, s', h)"
      and l: "agents_lookup s' = agents_lookup s"
      by blast
    have other: "\<And>j. agents_lookup s j = Ref a \<Longrightarrow> j = agentID"
      using ok Pair Ref by (auto simp add: state_ok_def)
    have mine: "agentEntry (ScheduleRespawn now agentID session role exitReason sh) agentID =
           Some \<lparr>Session = session, LastPatrolCompleted = LastPatrolCompleted (objs h a),
                 RespawnScheduledAt = Some (now + Delay (GetRespawnConfig role)),
                 LastExitedAt = Some now, ExitReason = exitReason\<rparr>"
      by (simp add: Pair ScheduleRespawn_unfold [OF g] agentEntry_pair l Ref)
    have before: "agentEntry sh agentID = Some (objs h a)"
      by (simp add: Pair agentEntry_pair Ref)
    have others: "agentEntry (ScheduleRespawn now agentID session role exitReason sh) j
               = agentEntry sh j" if "j \<noteq> agentID" for j
    proof (cases "agents_lookup s j")
      case Nil
      then show ?thesis
        by (simp add: Pair ScheduleRespawn_unfold [OF g] agentEntry_pair l)
    next
      case r: (Ref b)
      with that other [of j] have "b \<noteq> a"
        by auto
      with r show ?thesis
        by (simp add: Pair ScheduleRespawn_unfold [OF g] agentEntry_pair l)
    qed
    from mine before others show ?thesis
      by simp
  qed
qed
  with ScheduleRespawn_ok [OF ok] show ?thesis
    by blast
qed

theorem ScheduleRespawn_entry_witness:
  "state_ok (ScheduleRespawn noon ''deacon'' ''gt-ai-deacon'' ''deacon'' ''stuck'' zeroState)
   \<and> agentEntry
        (ScheduleRespawn (noon + Minute) ''gastown/refinery'' ''gt-gastown-refinery'' ''refinery''
           ''crash''
           (ScheduleRespawn noon ''deacon'' ''gt-ai-deacon'' ''deacon'' ''stuck'' zeroState))
        ''gastown/refinery''
       = Some \<lparr>Session = ''gt-gastown-refinery'', LastPatrolCompleted = None,
               RespawnScheduledAt = Some (noon + Minute), LastExitedAt = Some (noon + Minute),
               ExitReason = ''crash''\<rparr>
   \<and> agentEntry
        (ScheduleRespawn (noon + Minute) ''gastown/refinery'' ''gt-gastown-refinery'' ''refinery''
           ''crash''
           (ScheduleRespawn noon ''deacon'' ''gt-ai-deacon'' ''deacon'' ''stuck'' zeroState))
        ''deacon''
       = Some \<lparr>Session = ''gt-ai-deacon'', LastPatrolCompleted = None,
               RespawnScheduledAt = Some (noon + 5 * Minute), LastExitedAt = Some noon,
               ExitReason = ''stuck''\<rparr>"
proof -
  define st where "st = ScheduleRespawn noon ''deacon'' ''gt-ai-deacon'' ''deacon'' ''stuck'' zeroState"
  have ok: "state_ok st"
    unfolding st_def by (rule ScheduleRespawn_ok [OF ok_zero])
  have d: "agentEntry st ''deacon''
       = Some \<lparr>Session = ''gt-ai-deacon'', LastPatrolCompleted = None,
               RespawnScheduledAt = Some (noon + 5 * Minute), LastExitedAt = Some noon,
               ExitReason = ''stuck''\<rparr>"
    unfolding st_def by code_simp
  have r: "agentEntry st ''gastown/refinery'' = None"
    unfolding st_def by code_simp
  have delay: "Delay (GetRespawnConfig ''refinery'') = 0"
    by code_simp
  have ne: "''deacon'' \<noteq> ''gastown/refinery''"
    by simp
  from ScheduleRespawn_entry [OF ok, of "noon + Minute" "''gastown/refinery''"
         "''gt-gastown-refinery''" "''refinery''" "''crash''"]
  have "agentEntry (ScheduleRespawn (noon + Minute) ''gastown/refinery'' ''gt-gastown-refinery''
                      ''refinery'' ''crash'' st) ''gastown/refinery''
          = Some \<lparr>Session = ''gt-gastown-refinery'', LastPatrolCompleted = None,
               RespawnScheduledAt = Some (noon + Minute), LastExitedAt = Some (noon + Minute),
               ExitReason = ''crash''\<rparr>"
    and "agentEntry (ScheduleRespawn (noon + Minute) ''gastown/refinery'' ''gt-gastown-refinery''
                      ''refinery'' ''crash'' st) ''deacon'' = agentEntry st ''deacon''"
    using ne by (simp_all add: r delay)
  with ok d show ?thesis
    unfolding st_def by simp
qed

section \<open>Session names: theorems\<close>

lemma Index_dash_None: "CHR ''-'' \<notin> set s \<Longrightarrow> strings_Index s ''-'' = None"
  by (induction s) auto

lemma Index_dash_Some:
  "CHR ''-'' \<notin> set a \<Longrightarrow> strings_Index (a @ CHR ''-'' # b) ''-'' = Some (length a)"
  by (induction a) auto

lemma Split_dash_none: "CHR ''-'' \<notin> set s \<Longrightarrow> strings_Split s ''-'' = [s]"
  by (subst strings_Split.simps) (simp add: Index_dash_None)

lemma Split_dash_cons:
  "CHR ''-'' \<notin> set a \<Longrightarrow> strings_Split (a @ CHR ''-'' # b) ''-'' = a # strings_Split b ''-''"
  by (subst strings_Split.simps) (simp add: Index_dash_Some)

lemma dash_decompose:
  "CHR ''-'' \<in> set s \<Longrightarrow> \<exists>a b. s = a @ CHR ''-'' # b \<and> CHR ''-'' \<notin> set a"
  by (metis split_list_first)

lemma Split_dash_append:
  "strings_Split (a @ CHR ''-'' # b) ''-'' = strings_Split a ''-'' @ strings_Split b ''-''"
proof (induction "length a" arbitrary: a rule: less_induct)
  case less
  show ?case
  proof (cases "CHR ''-'' \<in> set a")
    case False
    then show ?thesis
      by (simp add: Split_dash_cons Split_dash_none)
  next
    case True
    then obtain a1 a2 where a: "a = a1 @ CHR ''-'' # a2" and a1: "CHR ''-'' \<notin> set a1"
      using dash_decompose by blast
    have "strings_Split (a @ CHR ''-'' # b) ''-'' = a1 # strings_Split (a2 @ CHR ''-'' # b) ''-''"
      using a1 by (simp add: a Split_dash_cons)
    also have "strings_Split (a2 @ CHR ''-'' # b) ''-'' = strings_Split a2 ''-'' @ strings_Split b ''-''"
      using less [of a2] by (simp add: a)
    finally show ?thesis
      using a1 by (simp add: a Split_dash_cons)
  qed
qed

lemma Split_dash_nonempty: "strings_Split s ''-'' \<noteq> []"
  by (subst strings_Split.simps) (simp split: option.splits)

lemma Join_cons: "ys \<noteq> [] \<Longrightarrow> strings_Join (x # ys) sep = x @ sep @ strings_Join ys sep"
  by (cases ys) auto

lemma Join_append:
  "xs \<noteq> [] \<Longrightarrow> ys \<noteq> [] \<Longrightarrow>
     strings_Join (xs @ ys) sep = strings_Join xs sep @ sep @ strings_Join ys sep"
proof (induction xs)
  case Nil
  then show ?case by simp
next
  case (Cons x xs)
  then show ?case
    by (cases "xs = []") (simp_all add: Join_cons)
qed

lemma Join_Split_dash: "strings_Join (strings_Split s ''-'') ''-'' = s"
proof (induction "length s" arbitrary: s rule: less_induct)
  case less
  show ?case
  proof (cases "CHR ''-'' \<in> set s")
    case False
    then show ?thesis by (simp add: Split_dash_none)
  next
    case True
    then obtain a b where s: "s = a @ CHR ''-'' # b" and a: "CHR ''-'' \<notin> set a"
      using dash_decompose by blast
    from less [of b] have "strings_Join (strings_Split b ''-'') ''-'' = b"
      by (simp add: s)
    then show ?thesis
      using a by (simp add: s Split_dash_cons Join_cons Split_dash_nonempty)
  qed
qed

lemma Split_dash_parts_nodash: "p \<in> set (strings_Split s ''-'') \<Longrightarrow> CHR ''-'' \<notin> set p"
proof (induction "length s" arbitrary: s rule: less_induct)
  case less
  show ?case
  proof (cases "CHR ''-'' \<in> set s")
    case False
    with less.prems show ?thesis by (simp add: Split_dash_none)
  next
    case True
    then obtain a b where s: "s = a @ CHR ''-'' # b" and a: "CHR ''-'' \<notin> set a"
      using dash_decompose by blast
    from less.prems a have "p = a \<or> p \<in> set (strings_Split b ''-'')"
      by (simp add: s Split_dash_cons)
    then show ?thesis
      using a less.hyps [of b] by (auto simp add: s)
  qed
qed


lemma crewMarker_skip:
  "(\<forall>k < length xs. xs ! k = ''crew'' \<longrightarrow> \<not> (0 < i + k \<and> int (i + k) < int (length parts) - 1))
   \<Longrightarrow> crewMarker parts i (xs @ zs) = crewMarker parts (i + length xs) zs"
proof (induction xs arbitrary: i)
  case Nil
  then show ?case by simp
next
  case (Cons x xs)
  from Cons.prems have head: "\<not> (x = ''crew'' \<and> 0 < i \<and> int i < int (length parts) - 1)"
    by fastforce
  have "\<forall>k < length xs. xs ! k = ''crew'' \<longrightarrow>
          \<not> (0 < Suc i + k \<and> int (Suc i + k) < int (length parts) - 1)"
  proof (intro allI impI)
    fix k assume "k < length xs" "xs ! k = ''crew''"
    with Cons.prems [rule_format, of "Suc k"]
    show "\<not> (0 < Suc i + k \<and> int (Suc i + k) < int (length parts) - 1)"
      by simp
  qed
  from Cons.IH [OF this] head show ?case
    by auto
qed

lemma tl_nth: "0 < k \<Longrightarrow> k < length xs \<Longrightarrow> xs ! k \<in> set (tl xs)"
  by (cases xs) (auto simp add: nth_Cons')

lemma parse_gt:
  assumes "body \<noteq> []"
  shows "ParseSessionName (CHR ''g'' # CHR ''t'' # CHR ''-'' # body) =
     (let parts = strings_Split body ''-'' in
          if length parts < 2 then Inl ExpectedTwoParts
          else if last parts = ''mayor'' then
            Inr \<lparr>Role = RoleMayor, Town = strings_Join (butlast parts) ''-'', Rig = [], Name = []\<rparr>
          else if last parts = ''deacon'' then
            Inr \<lparr>Role = RoleDeacon, Town = strings_Join (butlast parts) ''-'', Rig = [], Name = []\<rparr>
          else if last parts = ''witness'' then
            Inr \<lparr>Role = RoleWitness, Town = [], Rig = strings_Join (butlast parts) ''-'', Name = []\<rparr>
          else if last parts = ''refinery'' then
            Inr \<lparr>Role = RoleRefinery, Town = [], Rig = strings_Join (butlast parts) ''-'', Name = []\<rparr>
          else
            case crewMarker parts 0 parts of
              Some i \<Rightarrow>
                Inr \<lparr>Role = RoleCrew, Town = [], Rig = strings_Join (take i parts) ''-'',
                     Name = strings_Join (drop (Suc i) parts) ''-''\<rparr>
            | None \<Rightarrow>
                Inr \<lparr>Role = RolePolecat, Town = [],
                          Rig = strings_Join (butlast parts) ''-'', Name = last parts\<rparr>)"
  using assms
  by (simp add: ParseSessionName_def strings_HasPrefix_def strings_TrimPrefix_def Prefix_def Let_def)

lemma parse_suffix_word:
  assumes "CHR ''-'' \<notin> set word"
  shows "strings_Split (x @ CHR ''-'' # word) ''-'' = strings_Split x ''-'' @ [word]"
  using assms by (simp add: Split_dash_append Split_dash_none)

lemma roundtrip_mayor:
  "ParseSessionName (MayorSessionName town) = Inr \<lparr>Role = RoleMayor, Town = town, Rig = [], Name = []\<rparr>"
proof -
  have sp: "strings_Split (town @ ''-mayor'') ''-'' = strings_Split town ''-'' @ [''mayor'']"
    using parse_suffix_word [of "''mayor''" town] by simp
  define body where "body = town @ ''-mayor''"
  have ne: "body \<noteq> []"
    by (simp add: body_def)
  have "ParseSessionName (''gt-'' @ body) =
          Inr \<lparr>Role = RoleMayor, Town = town, Rig = [], Name = []\<rparr>"
    using Split_dash_nonempty [of town]
    by (simp add: parse_gt [OF ne] sp [folded body_def] Let_def Join_Split_dash Suc_le_eq)
  then have "ParseSessionName (''gt-'' @ (town @ ''-mayor'')) =
          Inr \<lparr>Role = RoleMayor, Town = town, Rig = [], Name = []\<rparr>"
    by (simp only: body_def)
  then show ?thesis
    by (simp add: MayorSessionName_def Prefix_def)
qed

lemma roundtrip_deacon:
  "ParseSessionName (DeaconSessionName town) = Inr \<lparr>Role = RoleDeacon, Town = town, Rig = [], Name = []\<rparr>"
proof -
  have sp: "strings_Split (town @ ''-deacon'') ''-'' = strings_Split town ''-'' @ [''deacon'']"
    using parse_suffix_word [of "''deacon''" town] by simp
  define body where "body = town @ ''-deacon''"
  have ne: "body \<noteq> []"
    by (simp add: body_def)
  have "ParseSessionName (''gt-'' @ body) =
          Inr \<lparr>Role = RoleDeacon, Town = town, Rig = [], Name = []\<rparr>"
    using Split_dash_nonempty [of town]
    by (simp add: parse_gt [OF ne] sp [folded body_def] Let_def Join_Split_dash Suc_le_eq)
  then have "ParseSessionName (''gt-'' @ (town @ ''-deacon'')) =
          Inr \<lparr>Role = RoleDeacon, Town = town, Rig = [], Name = []\<rparr>"
    by (simp only: body_def)
  then show ?thesis
    by (simp add: DeaconSessionName_def Prefix_def)
qed

lemma roundtrip_witness:
  "ParseSessionName (WitnessSessionName rig) = Inr \<lparr>Role = RoleWitness, Town = [], Rig = rig, Name = []\<rparr>"
proof -
  have sp: "strings_Split (rig @ ''-witness'') ''-'' = strings_Split rig ''-'' @ [''witness'']"
    using parse_suffix_word [of "''witness''" rig] by simp
  define body where "body = rig @ ''-witness''"
  have ne: "body \<noteq> []"
    by (simp add: body_def)
  have "ParseSessionName (''gt-'' @ body) =
          Inr \<lparr>Role = RoleWitness, Town = [], Rig = rig, Name = []\<rparr>"
    using Split_dash_nonempty [of rig]
    by (simp add: parse_gt [OF ne] sp [folded body_def] Let_def Join_Split_dash Suc_le_eq)
  then have "ParseSessionName (''gt-'' @ (rig @ ''-witness'')) =
          Inr \<lparr>Role = RoleWitness, Town = [], Rig = rig, Name = []\<rparr>"
    by (simp only: body_def)
  then show ?thesis
    by (simp add: WitnessSessionName_def Prefix_def)
qed

lemma roundtrip_refinery:
  "ParseSessionName (RefinerySessionName rig) = Inr \<lparr>Role = RoleRefinery, Town = [], Rig = rig, Name = []\<rparr>"
proof -
  have sp: "strings_Split (rig @ ''-refinery'') ''-'' = strings_Split rig ''-'' @ [''refinery'']"
    using parse_suffix_word [of "''refinery''" rig] by simp
  define body where "body = rig @ ''-refinery''"
  have ne: "body \<noteq> []"
    by (simp add: body_def)
  have "ParseSessionName (''gt-'' @ body) =
          Inr \<lparr>Role = RoleRefinery, Town = [], Rig = rig, Name = []\<rparr>"
    using Split_dash_nonempty [of rig]
    by (simp add: parse_gt [OF ne] sp [folded body_def] Let_def Join_Split_dash Suc_le_eq)
  then have "ParseSessionName (''gt-'' @ (rig @ ''-refinery'')) =
          Inr \<lparr>Role = RoleRefinery, Town = [], Rig = rig, Name = []\<rparr>"
    by (simp only: body_def)
  then show ?thesis
    by (simp add: RefinerySessionName_def Prefix_def)
qed

lemma roundtrip_crew:
  assumes A: "last (strings_Split name ''-'') \<notin> marker_words"
      and B: "''crew'' \<notin> set (tl (strings_Split rig ''-''))"
  shows "ParseSessionName (CrewSessionName rig name) = Inr \<lparr>Role = RoleCrew, Town = [], Rig = rig, Name = name\<rparr>"
proof -
  define R where "R = strings_Split rig ''-''"
  define N where "N = strings_Split name ''-''"
  define parts where "parts = R @ ''crew'' # N"
  have R: "R \<noteq> []" and N: "N \<noteq> []"
    by (simp_all add: R_def N_def Split_dash_nonempty)
  have sp: "strings_Split (rig @ ''-crew-'' @ name) ''-'' = parts"
  proof -
    have "strings_Split (rig @ CHR ''-'' # (''crew'' @ CHR ''-'' # name)) ''-''
            = R @ strings_Split (''crew'' @ CHR ''-'' # name) ''-''"
      by (simp only: Split_dash_append R_def)
    also have "strings_Split (''crew'' @ CHR ''-'' # name) ''-'' = ''crew'' # N"
      by (simp only: Split_dash_append N_def) (simp add: Split_dash_none)
    finally show ?thesis
      by (simp add: parts_def)
  qed
  have len: "\<not> length parts < 2"
    using R N by (cases R; cases N) (simp_all add: parts_def)
  have lastp: "last parts = last N"
    using N by (simp add: parts_def)
  have nomark: "last parts \<noteq> ''mayor''" "last parts \<noteq> ''deacon''"
               "last parts \<noteq> ''witness''" "last parts \<noteq> ''refinery''"
    using A by (auto simp add: lastp N_def marker_words_def)
  have skip: "\<forall>k < length R. R ! k = ''crew'' \<longrightarrow>
                \<not> (0 < 0 + k \<and> int (0 + k) < int (length parts) - 1)"
  proof (intro allI impI)
    fix k assume k: "k < length R" and c: "R ! k = ''crew''"
    have "k = 0"
    proof (rule ccontr)
      assume "k \<noteq> 0"
      with k have "R ! k \<in> set (tl R)"
        by (simp add: tl_nth)
      with c B show False
        by (simp add: R_def)
    qed
    then show "\<not> (0 < 0 + k \<and> int (0 + k) < int (length parts) - 1)"
      by simp
  qed
  have cm: "crewMarker parts 0 parts = Some (length R)"
  proof -
    have "crewMarker parts 0 (R @ ''crew'' # N) = crewMarker parts (0 + length R) (''crew'' # N)"
      by (rule crewMarker_skip [OF skip])
    also have "\<dots> = Some (length R)"
      using R N by (simp add: parts_def)
    finally show ?thesis
      by (simp add: parts_def)
  qed
  have rig: "strings_Join (take (length R) parts) ''-'' = rig"
    by (simp add: parts_def R_def Join_Split_dash)
  have name: "strings_Join (drop (Suc (length R)) parts) ''-'' = name"
    by (simp add: parts_def N_def Join_Split_dash)
  define body where "body = rig @ ''-crew-'' @ name"
  have ne: "body \<noteq> []"
    by (simp add: body_def)
  have "ParseSessionName (''gt-'' @ body) =
          Inr \<lparr>Role = RoleCrew, Town = [], Rig = rig, Name = name\<rparr>"
    by (simp add: parse_gt [OF ne] sp [folded body_def] Let_def len nomark cm rig name)
  then have "ParseSessionName (''gt-'' @ (rig @ ''-crew-'' @ name)) =
          Inr \<lparr>Role = RoleCrew, Town = [], Rig = rig, Name = name\<rparr>"
    by (simp only: body_def)
  then show ?thesis
    by (simp add: CrewSessionName_def Prefix_def)
qed

lemma roundtrip_polecat:
  assumes D: "CHR ''-'' \<notin> set name"
      and A: "name \<notin> marker_words"
      and B: "''crew'' \<notin> set (tl (strings_Split rig ''-''))"
  shows "ParseSessionName (PolecatSessionName rig name) = Inr \<lparr>Role = RolePolecat, Town = [], Rig = rig, Name = name\<rparr>"
proof -
  define R where "R = strings_Split rig ''-''"
  define parts where "parts = R @ [name]"
  have R: "R \<noteq> []"
    by (simp add: R_def Split_dash_nonempty)
  have sp: "strings_Split (rig @ ''-'' @ name) ''-'' = parts"
    using parse_suffix_word [OF D, of rig] by (simp add: parts_def R_def)
  have len: "\<not> length parts < 2"
    using R by (cases R) (simp_all add: parts_def)
  have nomark: "last parts \<noteq> ''mayor''" "last parts \<noteq> ''deacon''"
               "last parts \<noteq> ''witness''" "last parts \<noteq> ''refinery''"
    using A by (auto simp add: parts_def marker_words_def)
  have skip: "\<forall>k < length R. R ! k = ''crew'' \<longrightarrow>
                \<not> (0 < 0 + k \<and> int (0 + k) < int (length parts) - 1)"
  proof (intro allI impI)
    fix k assume k: "k < length R" and c: "R ! k = ''crew''"
    have "k = 0"
    proof (rule ccontr)
      assume "k \<noteq> 0"
      with k have "R ! k \<in> set (tl R)"
        by (simp add: tl_nth)
      with c B show False
        by (simp add: R_def)
    qed
    then show "\<not> (0 < 0 + k \<and> int (0 + k) < int (length parts) - 1)"
      by simp
  qed
  have cm: "crewMarker parts 0 parts = None"
  proof -
    have "crewMarker parts 0 (R @ [name]) = crewMarker parts (0 + length R) [name]"
      by (rule crewMarker_skip [OF skip])
    also have "\<dots> = None"
      by (simp add: parts_def)
    finally show ?thesis
      by (simp add: parts_def)
  qed
  have rig: "strings_Join (butlast parts) ''-'' = rig"
    by (simp add: parts_def R_def Join_Split_dash)
  define body where "body = rig @ ''-'' @ name"
  have ne: "body \<noteq> []"
    by (simp add: body_def)
  have lastp: "last parts = name"
    by (simp add: parts_def)
  have "ParseSessionName (''gt-'' @ body) =
          Inr \<lparr>Role = RolePolecat, Town = [], Rig = rig, Name = name\<rparr>"
    using A
    by (simp add: parse_gt [OF ne] sp [folded body_def] Let_def len cm rig lastp marker_words_def)
  then have "ParseSessionName (''gt-'' @ (rig @ ''-'' @ name)) =
          Inr \<lparr>Role = RolePolecat, Town = [], Rig = rig, Name = name\<rparr>"
    by (simp only: body_def)
  then show ?thesis
    by (simp add: PolecatSessionName_def Prefix_def)
qed

lemma roles_distinct:
  "RoleMayor \<noteq> RoleDeacon" "RoleMayor \<noteq> RoleWitness" "RoleMayor \<noteq> RoleRefinery"
  "RoleMayor \<noteq> RoleCrew" "RoleMayor \<noteq> RolePolecat" "RoleDeacon \<noteq> RoleWitness"
  "RoleDeacon \<noteq> RoleRefinery" "RoleDeacon \<noteq> RoleCrew" "RoleDeacon \<noteq> RolePolecat"
  "RoleWitness \<noteq> RoleRefinery" "RoleWitness \<noteq> RoleCrew" "RoleWitness \<noteq> RolePolecat"
  "RoleRefinery \<noteq> RoleCrew" "RoleRefinery \<noteq> RolePolecat" "RoleCrew \<noteq> RolePolecat"
  by (simp_all add: RoleMayor_def RoleDeacon_def RoleWitness_def RoleRefinery_def RoleCrew_def
        RolePolecat_def)

lemma roundtrip_when_unambiguous:
  assumes "session_unambiguous a"
  shows "ParseSessionName (AgentIdentity_SessionName a) = Inr a"
proof -
  consider (m) "AgentIdentity.Role a = RoleMayor" | (d) "AgentIdentity.Role a = RoleDeacon"
    | (w) "AgentIdentity.Role a = RoleWitness" | (r) "AgentIdentity.Role a = RoleRefinery"
    | (c) "AgentIdentity.Role a = RoleCrew" | (p) "AgentIdentity.Role a = RolePolecat"
    using assms by (auto simp add: session_unambiguous_def split: if_splits)
  then show ?thesis
  proof cases
    case m
    with assms have "Rig a = []" "Name a = []"
      by (simp_all add: session_unambiguous_def)
    with m show ?thesis
      by (simp add: AgentIdentity_SessionName_def roundtrip_mayor)
  next
    case d
    with assms have "Rig a = []" "Name a = []"
      by (simp_all add: session_unambiguous_def)
    with d show ?thesis
      by (simp add: AgentIdentity_SessionName_def roundtrip_deacon roles_distinct roles_distinct [symmetric])
  next
    case w
    with assms have "Town a = []" "Name a = []"
      by (simp_all add: session_unambiguous_def roles_distinct roles_distinct [symmetric])
    with w show ?thesis
      by (simp add: AgentIdentity_SessionName_def roundtrip_witness roles_distinct roles_distinct [symmetric])
  next
    case r
    with assms have "Town a = []" "Name a = []"
      by (simp_all add: session_unambiguous_def roles_distinct roles_distinct [symmetric])
    with r show ?thesis
      by (simp add: AgentIdentity_SessionName_def roundtrip_refinery roles_distinct roles_distinct [symmetric])
  next
    case c
    with assms have "Town a = []" "last (strings_Split (Name a) ''-'') \<notin> marker_words"
        "''crew'' \<notin> set (tl (strings_Split (Rig a) ''-''))"
      by (simp_all add: session_unambiguous_def roles_distinct roles_distinct [symmetric])
    with c show ?thesis
      by (simp add: AgentIdentity_SessionName_def roundtrip_crew roles_distinct roles_distinct [symmetric])
  next
    case p
    with assms have "Town a = []" "CHR ''-'' \<notin> set (Name a)" "Name a \<notin> marker_words"
        "''crew'' \<notin> set (tl (strings_Split (Rig a) ''-''))"
      by (simp_all add: session_unambiguous_def roles_distinct roles_distinct [symmetric])
    with p show ?thesis
      by (simp add: AgentIdentity_SessionName_def roundtrip_polecat roles_distinct roles_distinct [symmetric])
  qed
qed

lemma crewMarker_None:
  "crewMarker parts i xs = None \<Longrightarrow> k < length xs \<Longrightarrow>
     \<not> (xs ! k = ''crew'' \<and> 0 < i + k \<and> int (i + k) < int (length parts) - 1)"
proof (induction xs arbitrary: i k)
  case Nil
  then show ?case by simp
next
  case (Cons x xs)
  show ?case
  proof (cases k)
    case 0
    with Cons.prems show ?thesis
      by (auto split: if_splits)
  next
    case (Suc k')
    from Cons.prems have "crewMarker parts (Suc i) xs = None"
      by (simp split: if_splits)
    from Cons.IH [OF this, of k'] Cons.prems Suc show ?thesis
      by simp
  qed
qed

lemma crewMarker_Some:
  "crewMarker parts i xs = Some j \<Longrightarrow> 0 < j \<and> i \<le> j \<and> j < i + length xs"
proof (induction xs arbitrary: i)
  case Nil
  then show ?case by simp
next
  case (Cons x xs)
  show ?case
  proof (cases "x = ''crew'' \<and> i > 0 \<and> int i < int (length parts) - 1")
    case True
    with Cons.prems show ?thesis by auto
  next
    case False
    with Cons.prems have "crewMarker parts (Suc i) xs = Some j"
      by auto
    from Cons.IH [OF this] show ?thesis
      by auto
  qed
qed

lemma crewMarker_first:
  "k < length xs \<Longrightarrow> xs ! k = ''crew'' \<Longrightarrow> 0 < i + k \<Longrightarrow> int (i + k) < int (length parts) - 1
     \<Longrightarrow> \<exists>j. crewMarker parts i xs = Some j \<and> j \<le> i + k"
proof (induction xs arbitrary: i k)
  case Nil
  then show ?case by simp
next
  case (Cons x xs)
  show ?case
  proof (cases "x = ''crew'' \<and> i > 0 \<and> int i < int (length parts) - 1")
    case True
    then show ?thesis by auto
  next
    case False
    with Cons.prems obtain k' where k: "k = Suc k'"
      by (cases k) auto
    from Cons.IH [of k' "Suc i"] Cons.prems k
    obtain j where "crewMarker parts (Suc i) xs = Some j" "j \<le> Suc i + k'"
      by auto
    with False k show ?thesis
      by auto
  qed
qed

lemma in_set_tl_nth:
  assumes "x \<in> set (tl xs)"
  obtains k where "0 < k" and "k < length xs" and "xs ! k = x"
proof (cases xs)
  case Nil
  with assms show ?thesis by simp
next
  case (Cons y ys)
  with assms obtain n where "n < length ys" "ys ! n = x"
    by (auto simp add: in_set_conv_nth)
  with Cons that [of "Suc n"] show ?thesis
    by simp
qed

lemma Join_take_shorter:
  assumes "0 < i" "i < length R"
  shows "length (strings_Join (take i R) sep) < length (strings_Join R sep) \<or> sep = []"
proof -
  have "R = take i R @ drop i R"
    by simp
  moreover have "take i R \<noteq> []" "drop i R \<noteq> []"
    using assms by auto
  ultimately have "strings_Join R sep = strings_Join (take i R) sep @ sep @ strings_Join (drop i R) sep"
    using Join_append [of "take i R" "drop i R" sep] by simp
  then show ?thesis
    by (cases sep) auto
qed

lemma split_crew_session:
  "strings_Split (rig @ ''-crew-'' @ name) ''-'' =
     strings_Split rig ''-'' @ ''crew'' # strings_Split name ''-''"
proof -
  have "strings_Split (rig @ CHR ''-'' # (''crew'' @ CHR ''-'' # name)) ''-''
          = strings_Split rig ''-'' @ strings_Split (''crew'' @ CHR ''-'' # name) ''-''"
    by (simp only: Split_dash_append)
  also have "strings_Split (''crew'' @ CHR ''-'' # name) ''-'' = ''crew'' # strings_Split name ''-''"
    by (simp only: Split_dash_append) (simp add: Split_dash_none)
  finally show ?thesis
    by simp
qed

lemma split_polecat_session:
  "strings_Split (rig @ ''-'' @ name) ''-'' = strings_Split rig ''-'' @ strings_Split name ''-''"
  using Split_dash_append [of rig name] by simp



lemma parse_gt_marker:
  assumes "body \<noteq> []" and "\<not> length (strings_Split body ''-'') < 2"
      and "last (strings_Split body ''-'') \<in> marker_words"
  shows "\<exists>ro t r n. ParseSessionName (CHR ''g'' # CHR ''t'' # CHR ''-'' # body) =
                      Inr \<lparr>Role = ro, Town = t, Rig = r, Name = n\<rparr>
                  \<and> ro \<in> {RoleMayor, RoleDeacon, RoleWitness, RoleRefinery}"
proof -
  consider "last (strings_Split body ''-'') = ''mayor''"
    | "last (strings_Split body ''-'') \<noteq> ''mayor''" "last (strings_Split body ''-'') = ''deacon''"
    | "last (strings_Split body ''-'') \<noteq> ''mayor''" "last (strings_Split body ''-'') \<noteq> ''deacon''"
      "last (strings_Split body ''-'') = ''witness''"
    | "last (strings_Split body ''-'') \<noteq> ''mayor''" "last (strings_Split body ''-'') \<noteq> ''deacon''"
      "last (strings_Split body ''-'') \<noteq> ''witness''" "last (strings_Split body ''-'') = ''refinery''"
    using assms(3) unfolding marker_words_def by blast
  then show ?thesis
  proof cases
    case 1
    with assms(2) show ?thesis
      by (simp add: parse_gt [OF assms(1)] Let_def)
  next
    case 2
    with assms(2) show ?thesis
      by (simp add: parse_gt [OF assms(1)] Let_def)
  next
    case 3
    with assms(2) show ?thesis
      by (simp add: parse_gt [OF assms(1)] Let_def)
  next
    case 4
    with assms(2) show ?thesis
      by (simp add: parse_gt [OF assms(1)] Let_def)
  qed
qed

lemma parse_gt_nomarker:
  assumes "body \<noteq> []" and "\<not> length (strings_Split body ''-'') < 2"
      and "last (strings_Split body ''-'') \<notin> marker_words"
  shows "ParseSessionName (CHR ''g'' # CHR ''t'' # CHR ''-'' # body) =
           (case crewMarker (strings_Split body ''-'') 0 (strings_Split body ''-'') of
              Some i \<Rightarrow>
                Inr \<lparr>Role = RoleCrew, Town = [],
                     Rig = strings_Join (take i (strings_Split body ''-'')) ''-'',
                     Name = strings_Join (drop (Suc i) (strings_Split body ''-'')) ''-''\<rparr>
            | None \<Rightarrow>
                Inr \<lparr>Role = RolePolecat, Town = [],
                     Rig = strings_Join (butlast (strings_Split body ''-'')) ''-'',
                     Name = last (strings_Split body ''-'')\<rparr>)"
proof -
  from assms(3) have "last (strings_Split body ''-'') \<noteq> ''mayor''"
    "last (strings_Split body ''-'') \<noteq> ''deacon''"
    "last (strings_Split body ''-'') \<noteq> ''witness''"
    "last (strings_Split body ''-'') \<noteq> ''refinery''"
    by (simp_all add: marker_words_def)
  with assms(2) show ?thesis
    by (simp add: parse_gt [OF assms(1)] Let_def)
qed

lemma unambiguous_crew_necessary:
  assumes H: "ParseSessionName (CrewSessionName rig name) =
                Inr \<lparr>Role = RoleCrew, Town = town, Rig = rig, Name = name\<rparr>"
  shows "town = [] \<and> last (strings_Split name ''-'') \<notin> marker_words
          \<and> ''crew'' \<notin> set (tl (strings_Split rig ''-''))"
proof -
  define R where "R = strings_Split rig ''-''"
  define N where "N = strings_Split name ''-''"
  define parts where "parts = R @ ''crew'' # N"
  define body where "body = rig @ ''-crew-'' @ name"
  have R: "R \<noteq> []" and N: "N \<noteq> []"
    by (simp_all add: R_def N_def Split_dash_nonempty)
  have ne: "body \<noteq> []"
    by (simp add: body_def)
  have sp: "strings_Split body ''-'' = parts"
    by (simp only: body_def split_crew_session parts_def R_def N_def)
  have len: "\<not> length (strings_Split body ''-'') < 2"
    using R N by (cases R; cases N) (simp_all add: sp parts_def)
  have lastp: "last parts = last N"
    using N by (simp add: parts_def)
  have H': "ParseSessionName (CHR ''g'' # CHR ''t'' # CHR ''-'' # body) =
                Inr \<lparr>Role = RoleCrew, Town = town, Rig = rig, Name = name\<rparr>"
    using H by (simp add: CrewSessionName_def Prefix_def body_def)
  have A: "last (strings_Split body ''-'') \<notin> marker_words"
  proof
    assume "last (strings_Split body ''-'') \<in> marker_words"
    from parse_gt_marker [OF ne len this] H' show False
      by (auto simp add: roles_distinct roles_distinct [symmetric])
  qed
  have "\<exists>i. crewMarker parts 0 parts = Some i \<and> strings_Join (take i parts) ''-'' = rig
           \<and> town = []"
  proof (cases "crewMarker parts 0 parts")
    case None
    with H' parse_gt_nomarker [OF ne len A] show ?thesis
      by (simp add: sp roles_distinct roles_distinct [symmetric])
  next
    case (Some i)
    with H' parse_gt_nomarker [OF ne len A] show ?thesis
      by (simp add: sp)
  qed
  then obtain i where cm: "crewMarker parts 0 parts = Some i"
      and rig: "strings_Join (take i parts) ''-'' = rig" and town: "town = []"
    by blast
  have B: "''crew'' \<notin> set (tl R)"
  proof
    assume "''crew'' \<in> set (tl R)"
    then obtain k where k: "0 < k" "k < length R" "R ! k = ''crew''"
      by (rule in_set_tl_nth)
    then have "parts ! k = ''crew''" "k < length parts" "int (0 + k) < int (length parts) - 1"
      by (simp_all add: parts_def nth_append)
    with k(1) obtain j where "crewMarker parts 0 parts = Some j" "j \<le> 0 + k"
      using crewMarker_first [of k parts 0 parts] by auto
    with cm k have i: "i < length R"
      by simp
    from crewMarker_Some [OF cm] have i0: "0 < i"
      by simp
    from i have "take i parts = take i R"
      by (simp add: parts_def)
    with rig have "length (strings_Join (take i R) ''-'') = length rig"
      by (simp only:)
    moreover have "length (strings_Join R ''-'') = length rig"
      unfolding R_def by (simp only: Join_Split_dash)
    ultimately show False
      using Join_take_shorter [OF i0 i, of "''-''"] by simp
  qed
  from town A B show ?thesis
    by (simp add: R_def N_def sp lastp)
qed

lemma unambiguous_polecat_necessary:
  assumes H: "ParseSessionName (PolecatSessionName rig name) =
                Inr \<lparr>Role = RolePolecat, Town = town, Rig = rig, Name = name\<rparr>"
  shows "town = [] \<and> CHR ''-'' \<notin> set name \<and> name \<notin> marker_words
          \<and> ''crew'' \<notin> set (tl (strings_Split rig ''-''))"
proof -
  define R where "R = strings_Split rig ''-''"
  define N where "N = strings_Split name ''-''"
  define parts where "parts = R @ N"
  define body where "body = rig @ ''-'' @ name"
  have R: "R \<noteq> []" and N: "N \<noteq> []"
    by (simp_all add: R_def N_def Split_dash_nonempty)
  have ne: "body \<noteq> []"
    by (simp add: body_def)
  have sp: "strings_Split body ''-'' = parts"
    by (simp only: body_def split_polecat_session parts_def R_def N_def)
  have len: "\<not> length (strings_Split body ''-'') < 2"
    using R N by (cases R; cases N) (simp_all add: sp parts_def)
  have lastp: "last parts = last N"
    using N by (simp add: parts_def)
  have H': "ParseSessionName (CHR ''g'' # CHR ''t'' # CHR ''-'' # body) =
                Inr \<lparr>Role = RolePolecat, Town = town, Rig = rig, Name = name\<rparr>"
    using H by (simp add: PolecatSessionName_def Prefix_def body_def)
  have A: "last (strings_Split body ''-'') \<notin> marker_words"
  proof
    assume "last (strings_Split body ''-'') \<in> marker_words"
    from parse_gt_marker [OF ne len this] H' show False
      by (auto simp add: roles_distinct roles_distinct [symmetric])
  qed
  have "crewMarker parts 0 parts = None \<and> last parts = name \<and> town = []"
  proof (cases "crewMarker parts 0 parts")
    case None
    with H' parse_gt_nomarker [OF ne len A] show ?thesis
      by (simp add: sp)
  next
    case (Some i)
    with H' parse_gt_nomarker [OF ne len A] show ?thesis
      by (simp add: sp roles_distinct roles_distinct [symmetric])
  qed
  then have cm: "crewMarker parts 0 parts = None"
      and name: "last parts = name" and town: "town = []"
    by simp_all
  have "last N \<in> set N"
    using N by (rule last_in_set)
  then have "name \<in> set N"
    using name lastp by simp
  then have D: "CHR ''-'' \<notin> set name"
    unfolding N_def by (rule Split_dash_parts_nodash)
  then have N1: "N = [name]"
    by (simp add: N_def Split_dash_none)
  have A': "name \<notin> marker_words"
    using A by (simp add: sp lastp N1)
  have B: "''crew'' \<notin> set (tl R)"
  proof
    assume "''crew'' \<in> set (tl R)"
    then obtain k where k: "0 < k" "k < length R" "R ! k = ''crew''"
      by (rule in_set_tl_nth)
    then have "parts ! k = ''crew''" "k < length parts" "int (0 + k) < int (length parts) - 1"
      by (simp_all add: parts_def nth_append N1)
    with k(1) crewMarker_None [OF cm, of k] show False
      by simp
  qed
  from town D A' B show ?thesis
    by (simp add: R_def)
qed

lemma parse_empty: "ParseSessionName [] = Inl MissingPrefix"
  by (simp add: ParseSessionName_def strings_HasPrefix_def Prefix_def)

lemma identity_eta:
  "a = \<lparr>Role = AgentIdentity.Role a, Town = Town a, Rig = Rig a, Name = Name a\<rparr>"
  by simp

text \<open>
  C4, as amended. Formatting an identity as a session name and parsing the name back gives
  the identity again exactly for the identities that are \<open>session_unambiguous\<close>: every
  mayor and deacon (any town) and every witness and refinery (any rig), the fields their
  role does not use being empty; a crew member unless the last hyphen-separated segment of
  its name is one of mayor, deacon, witness, refinery or a segment of its rig after the
  first is "crew"; a polecat unless its name contains a hyphen or is one of those four
  words, or a segment of its rig after the first is "crew". For every other identity the
  parse gives a different identity or an error.
\<close>

theorem session_name_roundtrip:
  "ParseSessionName (AgentIdentity_SessionName a) = Inr a \<longleftrightarrow> session_unambiguous a"
proof
  assume "session_unambiguous a"
  then show "ParseSessionName (AgentIdentity_SessionName a) = Inr a"
    by (rule roundtrip_when_unambiguous)
next
  assume H: "ParseSessionName (AgentIdentity_SessionName a) = Inr a"
  consider (m) "AgentIdentity.Role a = RoleMayor" | (d) "AgentIdentity.Role a = RoleDeacon"
    | (w) "AgentIdentity.Role a = RoleWitness" | (r) "AgentIdentity.Role a = RoleRefinery"
    | (c) "AgentIdentity.Role a = RoleCrew" | (p) "AgentIdentity.Role a = RolePolecat"
    | (other) "AgentIdentity.Role a \<noteq> RoleMayor" "AgentIdentity.Role a \<noteq> RoleDeacon"
        "AgentIdentity.Role a \<noteq> RoleWitness" "AgentIdentity.Role a \<noteq> RoleRefinery"
        "AgentIdentity.Role a \<noteq> RoleCrew" "AgentIdentity.Role a \<noteq> RolePolecat"
    by blast
  then show "session_unambiguous a"
  proof cases
    case m
    with H have "a = \<lparr>Role = RoleMayor, Town = Town a, Rig = [], Name = []\<rparr>"
      by (simp add: AgentIdentity_SessionName_def roundtrip_mayor)
    then have "Rig a = []" "Name a = []"
      by (metis AgentIdentity.select_convs(3), metis AgentIdentity.select_convs(4))
    with m show ?thesis
      by (simp add: session_unambiguous_def)
  next
    case d
    with H have "a = \<lparr>Role = RoleDeacon, Town = Town a, Rig = [], Name = []\<rparr>"
      by (simp add: AgentIdentity_SessionName_def roundtrip_deacon roles_distinct [symmetric])
    then have "Rig a = []" "Name a = []"
      by (metis AgentIdentity.select_convs(3), metis AgentIdentity.select_convs(4))
    with d show ?thesis
      by (simp add: session_unambiguous_def)
  next
    case w
    with H have "a = \<lparr>Role = RoleWitness, Town = [], Rig = Rig a, Name = []\<rparr>"
      by (simp add: AgentIdentity_SessionName_def roundtrip_witness roles_distinct [symmetric])
    then have "Town a = []" "Name a = []"
      by (metis AgentIdentity.select_convs(2), metis AgentIdentity.select_convs(4))
    with w show ?thesis
      by (simp add: session_unambiguous_def roles_distinct [symmetric])
  next
    case r
    with H have "a = \<lparr>Role = RoleRefinery, Town = [], Rig = Rig a, Name = []\<rparr>"
      by (simp add: AgentIdentity_SessionName_def roundtrip_refinery roles_distinct [symmetric])
    then have "Town a = []" "Name a = []"
      by (metis AgentIdentity.select_convs(2), metis AgentIdentity.select_convs(4))
    with r show ?thesis
      by (simp add: session_unambiguous_def roles_distinct [symmetric])
  next
    case c
    with H have "ParseSessionName (CrewSessionName (Rig a) (Name a)) = Inr a"
      by (simp add: AgentIdentity_SessionName_def roles_distinct [symmetric])
    then have "ParseSessionName (CrewSessionName (Rig a) (Name a)) =
                 Inr \<lparr>Role = RoleCrew, Town = Town a, Rig = Rig a, Name = Name a\<rparr>"
      using c identity_eta [of a] by simp
    from unambiguous_crew_necessary [OF this] c show ?thesis
      by (simp add: session_unambiguous_def roles_distinct [symmetric])
  next
    case p
    with H have "ParseSessionName (PolecatSessionName (Rig a) (Name a)) = Inr a"
      by (simp add: AgentIdentity_SessionName_def roles_distinct [symmetric])
    then have "ParseSessionName (PolecatSessionName (Rig a) (Name a)) =
                 Inr \<lparr>Role = RolePolecat, Town = Town a, Rig = Rig a, Name = Name a\<rparr>"
      using p identity_eta [of a] by simp
    from unambiguous_polecat_necessary [OF this] p show ?thesis
      by (simp add: session_unambiguous_def roles_distinct [symmetric])
  next
    case other
    then have "AgentIdentity_SessionName a = []"
      by (simp add: AgentIdentity_SessionName_def)
    with H show ?thesis
      by (simp add: parse_empty)
  qed
qed


theorem session_name_roundtrip_witness:
  "session_unambiguous \<lparr>Role = RoleCrew, Town = [], Rig = ''foo-bar'', Name = ''my-worker''\<rparr>
   \<and> AgentIdentity_SessionName \<lparr>Role = RoleCrew, Town = [], Rig = ''foo-bar'', Name = ''my-worker''\<rparr>
       = ''gt-foo-bar-crew-my-worker''
   \<and> ParseSessionName ''gt-foo-bar-crew-my-worker''
       = Inr \<lparr>Role = RoleCrew, Town = [], Rig = ''foo-bar'', Name = ''my-worker''\<rparr>"
proof -
  have u: "session_unambiguous \<lparr>Role = RoleCrew, Town = [], Rig = ''foo-bar'', Name = ''my-worker''\<rparr>"
    by code_simp
  have n: "AgentIdentity_SessionName \<lparr>Role = RoleCrew, Town = [], Rig = ''foo-bar'', Name = ''my-worker''\<rparr>
       = ''gt-foo-bar-crew-my-worker''"
    by code_simp
  from session_name_roundtrip [of "\<lparr>Role = RoleCrew, Town = [], Rig = ''foo-bar'', Name = ''my-worker''\<rparr>"] u
  have "ParseSessionName (AgentIdentity_SessionName
          \<lparr>Role = RoleCrew, Town = [], Rig = ''foo-bar'', Name = ''my-worker''\<rparr>)
        = Inr \<lparr>Role = RoleCrew, Town = [], Rig = ''foo-bar'', Name = ''my-worker''\<rparr>"
    by simp
  with u n show ?thesis
    by simp
qed

text \<open>
  C4, as stated, fails: the polecat \<open>alpha-1\<close> of the rig \<open>gastown\<close> has the session name
  \<^verbatim>\<open>gt-gastown-alpha-1\<close>, which parses as the polecat \<open>1\<close> of the rig \<open>gastown-alpha\<close>.
\<close>

theorem hyphenated_polecat_not_roundtrip:
  "AgentIdentity_SessionName \<lparr>Role = RolePolecat, Town = [], Rig = ''gastown'', Name = ''alpha-1''\<rparr>
     = ''gt-gastown-alpha-1''
   \<and> ParseSessionName (AgentIdentity_SessionName
        \<lparr>Role = RolePolecat, Town = [], Rig = ''gastown'', Name = ''alpha-1''\<rparr>)
     = Inr \<lparr>Role = RolePolecat, Town = [], Rig = ''gastown-alpha'', Name = ''1''\<rparr>
   \<and> ParseSessionName (AgentIdentity_SessionName
        \<lparr>Role = RolePolecat, Town = [], Rig = ''gastown'', Name = ''alpha-1''\<rparr>)
     \<noteq> Inr \<lparr>Role = RolePolecat, Town = [], Rig = ''gastown'', Name = ''alpha-1''\<rparr>"
  by code_simp

section \<open>Lifecycle requests: theorems\<close>

lemma grows_refl: "grows w w"
  by (simp add: grows_def)

lemma grows_trans: "grows w w1 \<Longrightarrow> grows w1 w2 \<Longrightarrow> grows w w2"
  by (auto simp add: grows_def)

lemma exec_inbox:
  "inbox (snd (exec env c w)) =
     (case c of
        MailDelete i \<Rightarrow> if fails env (length (trace w)) c then inbox w
                        else filter (\<lambda>m. ID m \<noteq> i) (inbox w)
      | _ \<Rightarrow> inbox w)"
  by (cases c) (simp_all add: exec_def)

lemma grows_exec:
  "(\<And>i. c \<noteq> MailDelete i) \<Longrightarrow> grows w (snd (exec env c w))"
  by (cases c) (auto simp add: grows_def exec_trace exec_inbox)

lemma grows_exec_pair:
  "(\<And>i. c \<noteq> MailDelete i) \<Longrightarrow> exec env c w = (ok, w') \<Longrightarrow> grows w w'"
  using grows_exec [of c w env] by simp

lemma grows_execAll:
  "(\<And>c i. c \<in> set cs \<Longrightarrow> c \<noteq> MailDelete i) \<Longrightarrow> grows w (execAll env cs w)"
proof (induction cs arbitrary: w)
  case Nil
  show ?case by (simp add: grows_refl)
next
  case (Cons c cs)
  have "grows w (snd (exec env c w))"
    using Cons.prems by (intro grows_exec) auto
  moreover have "grows (snd (exec env c w)) (execAll env cs (snd (exec env c w)))"
    using Cons.prems by (intro Cons.IH) auto
  ultimately show ?case
    using grows_trans by simp
qed

lemma grows_syncWorkspace: "grows w (syncWorkspace env d w)"
  unfolding syncWorkspace_def by (rule grows_execAll) auto

lemma grows_setSessionEnvironment: "grows w (setSessionEnvironment env s i c p w)"
  unfolding setSessionEnvironment_def by (rule grows_execAll) (auto split: option.splits)

lemma grows_applySessionTheme: "grows w (applySessionTheme env s p w)"
  unfolding applySessionTheme_def by (simp add: grows_refl grows_exec)

lemma grows_restartSession: "grows w (snd (restartSession env s i w))"
proof (cases "getRoleConfigForIdentity env i")
  case None
  then show ?thesis
    by (simp add: restartSession_def grows_refl)
next
  case (Some cp)
  obtain config parsed where cp: "cp = (config, parsed)"
    by (cases cp)
  define workDir where "workDir = getWorkDir env config parsed"
  show ?thesis
  proof (cases "workDir = []")
    case True
    then show ?thesis
      by (simp add: restartSession_def Some cp workDir_def grows_refl)
  next
    case False
    define w1 where "w1 = (if getNeedsPreSync config parsed then syncWorkspace env workDir w else w)"
    have g1: "grows w w1"
      by (simp add: w1_def grows_refl grows_syncWorkspace)
    obtain ok2 w2 where e2: "exec env (EnsureSessionFresh s workDir) w1 = (ok2, w2)"
      by (cases "exec env (EnsureSessionFresh s workDir) w1")
    have g2: "grows w1 w2"
      using grows_exec_pair [OF _ e2] by simp
    define w4 where "w4 = applySessionTheme env s parsed (setSessionEnvironment env s i config parsed w2)"
    have g4: "grows w2 w4"
      unfolding w4_def using grows_trans [OF grows_setSessionEnvironment grows_applySessionTheme] .
    obtain ok5 w5 where e5: "exec env (SendKeys s (getStartCommand env config parsed)) w4 = (ok5, w5)"
      by (cases "exec env (SendKeys s (getStartCommand env config parsed)) w4")
    have g5: "grows w4 w5"
      using grows_exec_pair [OF _ e5] by simp
    define w7 where "w7 = snd (exec env (AcceptBypassPermissionsWarning s)
                                  (snd (exec env (WaitForCommand s) w5)))"
    have g7: "grows w5 w7"
      unfolding w7_def by (rule grows_trans [OF grows_exec grows_exec]) simp_all
    have e2': "exec env (EnsureSessionFresh s workDir)
                 (if getNeedsPreSync config parsed then syncWorkspace env workDir w else w) = (ok2, w2)"
      using e2 by (simp add: w1_def)
    have e5': "exec env (SendKeys s (getStartCommand env config parsed))
                 (applySessionTheme env s parsed (setSessionEnvironment env s i config parsed w2)) = (ok5, w5)"
      using e5 by (simp add: w4_def)
    have res: "snd (restartSession env s i w) = (if \<not> ok2 then w2 else if \<not> ok5 then w5 else w7)"
      using False e2' e5'
      by (cases "getNeedsPreSync config parsed"; cases ok2; cases ok5)
         (simp_all add: restartSession_def Some cp workDir_def [symmetric] Let_def w7_def)
    have "grows w w2"
      using g1 g2 by (rule grows_trans)
    moreover have "grows w w5"
      using grows_trans [OF \<open>grows w w2\<close> grows_trans [OF g4 g5]] .
    moreover have "grows w w7"
      using \<open>grows w w5\<close> g7 by (rule grows_trans)
    ultimately show ?thesis
      unfolding res by simp
  qed
qed

lemma grows_clearAgentRequestingState: "grows w (snd (clearAgentRequestingState env i a w))"
  by (auto simp add: clearAgentRequestingState_def Let_def grows_refl grows_exec
        split: option.splits FileEntry.splits JsonDoc.splits prod.splits
        dest!: grows_exec_pair [rotated])


lemma grows_clock_left: "grows (w\<lparr>clock := t\<rparr>) w' = grows w w'"
  by (simp add: grows_def)

lemma grows_restart_tail:
  "grows w0 (snd (case restartSession env s i w0 of
                    (Some err, w) \<Rightarrow> (Some (RestartingSession err), w)
                  | (None, w) \<Rightarrow> (None, snd (clearAgentRequestingState env i a w))))"
proof (cases "restartSession env s i w0")
  case (Pair x w')
  have g: "grows w0 w'"
    using grows_restartSession [of w0 env s i] Pair by simp
  show ?thesis
  proof (cases x)
    case None
    with Pair g show ?thesis
      by (simp add: grows_trans [OF g grows_clearAgentRequestingState])
  next
    case (Some e)
    with Pair g show ?thesis
      by simp
  qed
qed

lemma grows_executeLifecycleAction: "grows w (snd (executeLifecycleAction env r w))"
proof -
  define sessionName where "sessionName = identityToSession env (From r)"
  show ?thesis
  proof (cases "sessionName = []")
    case True
    then show ?thesis
      by (simp add: executeLifecycleAction_def sessionName_def grows_refl)
  next
    case ne: False
    show ?thesis
    proof (cases "verifyAgentRequestingState env w (From r) (Action r)")
      case (Some e)
      with ne show ?thesis
        by (simp add: executeLifecycleAction_def sessionName_def grows_refl)
    next
      case None
      show ?thesis
      proof (cases "tmux_HasSession env sessionName w")
        case n: None
        with ne None show ?thesis
          by (simp add: executeLifecycleAction_def sessionName_def grows_refl)
      next
        case (Some running)
        obtain ok1 w1 where k: "exec env (KillSession sessionName) w = (ok1, w1)"
          by (cases "exec env (KillSession sessionName) w")
        have g1: "grows w w1"
          using grows_exec_pair [OF _ k] by simp
        have tail: "grows w0 (snd (case restartSession env sessionName (From r) w0 of
                    (Some err, w) \<Rightarrow> (Some (RestartingSession err), w)
                  | (None, w) \<Rightarrow> (None, snd (clearAgentRequestingState env (From r) (Action r) w))))"
          for w0
          by (rule grows_restart_tail)
        have tail1: "grows w (snd (case restartSession env sessionName (From r)
                                     (w1\<lparr>clock := clock w1 + max 0 (ShutdownNotifyDelay env)\<rparr>) of
                    (Some err, w) \<Rightarrow> (Some (RestartingSession err), w)
                  | (None, w) \<Rightarrow> (None, snd (clearAgentRequestingState env (From r) (Action r) w))))"
          using grows_trans [OF g1 tail [of "w1\<lparr>clock := clock w1 + max 0 (ShutdownNotifyDelay env)\<rparr>",
                unfolded grows_clock_left]] .
        consider (shutdown) "Action r = ActionShutdown"
          | (restart) "Action r \<noteq> ActionShutdown" "Action r = ActionCycle \<or> Action r = ActionRestart"
          | (unknown) "Action r \<noteq> ActionShutdown" "Action r \<noteq> ActionCycle" "Action r \<noteq> ActionRestart"
          by blast
        then show ?thesis
        proof cases
          case shutdown
          with ne None Some k g1 show ?thesis
            by (cases running; cases ok1)
               (simp_all add: executeLifecycleAction_def sessionName_def [symmetric] grows_refl)
        next
          case restart
          with ne None Some k g1 tail [of w] tail1 show ?thesis
            by (cases running; cases ok1)
               (simp_all add: executeLifecycleAction_def sessionName_def [symmetric] grows_refl)
        next
          case unknown
          with ne None Some show ?thesis
            by (simp add: executeLifecycleAction_def sessionName_def [symmetric] grows_refl)
        qed
      qed
    qed
  qed
qed








lemma inbox_exec_subset: "set (inbox (snd (exec env c w))) \<subseteq> set (inbox w)"
  by (cases c) (auto simp add: exec_inbox)

lemma inbox_executeLifecycleAction: "inbox (snd (executeLifecycleAction env r w)) = inbox w"
  using grows_executeLifecycleAction [of w env r] by (simp add: grows_def)

lemma closeMessage_inbox:
  "inbox (snd (closeMessage env i w)) =
     (if fails env (length (trace w)) (MailDelete i) then inbox w
      else filter (\<lambda>m. ID m \<noteq> i) (inbox w))"
  by (simp add: closeMessage_def exec_inbox)

lemma closeMessage_trace:
  "trace (snd (closeMessage env i w)) =
     trace w @ [(MailDelete i, \<not> fails env (length (trace w)) (MailDelete i))]"
  by (simp add: closeMessage_def exec_trace)


lemma processMessage_accepted:
  assumes "\<not> Read msg" and "parseLifecycleRequest env w msg = Some request"
      and "\<not> staleMessage env w msg"
  shows "processMessage env msg w =
           (Executed (fst (executeLifecycleAction env request (snd (closeMessage env (ID msg) w)))),
            snd (executeLifecycleAction env request (snd (closeMessage env (ID msg) w))))"
  using assms by (simp add: processMessage_def Let_def split: prod.splits)

lemma inbox_processMessage_subset: "set (inbox (snd (processMessage env msg w))) \<subseteq> set (inbox w)"
  by (auto simp add: processMessage_def Let_def closeMessage_inbox inbox_executeLifecycleAction
        split: option.splits prod.splits if_splits
        dest!: arg_cong [where f = snd])

lemma inbox_processMessages_subset: "set (inbox (processMessages env msgs w)) \<subseteq> set (inbox w)"
proof (induction msgs arbitrary: w)
  case Nil
  show ?case by simp
next
  case (Cons m msgs)
  have "set (inbox (processMessages env msgs (snd (processMessage env m w))))
          \<subseteq> set (inbox (snd (processMessage env m w)))"
    by (rule Cons.IH)
  also have "\<dots> \<subseteq> set (inbox w)"
    by (rule inbox_processMessage_subset)
  finally show ?case
    by simp
qed

lemma closeMessage_files: "files (snd (closeMessage env i w)) = files w"
  by (simp add: closeMessage_def exec_def)


lemma parseLifecycleRequest_world:
  "(parseLifecycleRequest env w msg = None) = (parseLifecycleRequest env w' msg = None)"
  by (simp add: parseLifecycleRequest_def Let_def split: option.splits)

lemma processMessage_consumes:
  assumes "\<not> Read msg" and "parseLifecycleRequest env w msg \<noteq> None"
      and "\<not> fails env (length (trace w)) (MailDelete (ID msg))"
  shows "ID msg \<notin> ID ` set (inbox (snd (processMessage env msg w)))"
proof -
  from assms(2) obtain request where r: "parseLifecycleRequest env w msg = Some request"
    by blast
  show ?thesis
  proof (cases "staleMessage env w msg")
    case True
    with assms(1,3) r show ?thesis
      by (auto simp add: processMessage_def closeMessage_inbox)
  next
    case False
    with assms(1,3) r show ?thesis
      by (auto simp add: processMessage_def Let_def closeMessage_inbox inbox_executeLifecycleAction
            split: prod.splits dest!: arg_cong [where f = snd])
  qed
qed

text \<open>
  One pass over the fetched messages: every unread lifecycle message among them is absent
  from the inbox afterwards, whatever became of its action, provided the mailbox never
  refuses to delete it.
\<close>

lemma processMessages_consumes:
  assumes "msg \<in> set msgs" and "\<not> Read msg" and "parseLifecycleRequest env w msg \<noteq> None"
      and "\<And>n. \<not> fails env n (MailDelete (ID msg))"
  shows "ID msg \<notin> ID ` set (inbox (processMessages env msgs w))"
  using assms(1,3)
proof (induction msgs arbitrary: w)
  case Nil
  then show ?case by simp
next
  case (Cons m msgs)
  show ?case
  proof (cases "m = msg")
    case True
    from Cons.prems(2) assms(2,4)
    have "ID msg \<notin> ID ` set (inbox (snd (processMessage env msg w)))"
      by (intro processMessage_consumes) simp_all
    moreover have "set (inbox (processMessages env msgs (snd (processMessage env msg w))))
                     \<subseteq> set (inbox (snd (processMessage env msg w)))"
      by (rule inbox_processMessages_subset)
    ultimately show ?thesis
      using True by auto
  next
    case False
    with Cons.prems(1) have "msg \<in> set msgs"
      by simp
    moreover from Cons.prems(2)
    have "parseLifecycleRequest env (snd (processMessage env m w)) msg \<noteq> None"
      using parseLifecycleRequest_world [of env w msg "snd (processMessage env m w)"] by simp
    ultimately have "ID msg \<notin> ID ` set (inbox (processMessages env msgs (snd (processMessage env m w))))"
      by (rule Cons.IH)
    then show ?thesis
      by simp
  qed
qed

lemma ProcessLifecycleRequests_consumes:
  assumes "msg \<in> set (inbox w)" and "\<not> Read msg" and "parseLifecycleRequest env w msg \<noteq> None"
      and "\<not> fails env (length (trace w)) MailInbox"
      and "\<And>n. \<not> fails env n (MailDelete (ID msg))"
  shows "ID msg \<notin> ID ` set (inbox (ProcessLifecycleRequests env w))"
  using assms by (simp add: ProcessLifecycleRequests_def processMessages_consumes)

text \<open>
  C1, as amended. Every unread lifecycle message that is not stale is executed: the
  processor first issues the deletion of the message and then runs the requested action in
  the world the deletion has left, whether the deletion returned an error or not; the
  outcome is the action's. So the deletion is the first command issued, before any command
  of the action. If the deletion returns no error, the message is absent from the inbox
  after the message has been processed and stays absent whatever is processed afterwards,
  whether the action succeeded or failed: nothing puts it back, so it is not seen and not
  executed again. If the deletion returns an error, the action is executed all the same and
  the inbox is as it was.
\<close>

theorem claim_before_execute:
  assumes unread: "\<not> Read msg"
      and lifecycle: "parseLifecycleRequest env w msg = Some request"
      and fresh: "\<not> staleMessage env w msg"
  shows "processMessage env msg w =
           (Executed (fst (executeLifecycleAction env request (snd (closeMessage env (ID msg) w)))),
            snd (executeLifecycleAction env request (snd (closeMessage env (ID msg) w))))
       \<and> trace (snd (closeMessage env (ID msg) w)) =
           trace w @ [(MailDelete (ID msg), \<not> fails env (length (trace w)) (MailDelete (ID msg)))]
       \<and> (\<exists>rest. trace (snd (executeLifecycleAction env request (snd (closeMessage env (ID msg) w))))
                   = trace (snd (closeMessage env (ID msg) w)) @ rest
                 \<and> trace (snd (processMessage env msg w)) =
                     trace w @ (MailDelete (ID msg),
                                \<not> fails env (length (trace w)) (MailDelete (ID msg))) # rest)
       \<and> (\<not> fails env (length (trace w)) (MailDelete (ID msg)) \<longrightarrow>
            (\<forall>msgs. \<forall>m \<in> set (inbox (processMessages env msgs (snd (processMessage env msg w)))).
                ID m \<noteq> ID msg))
       \<and> (fails env (length (trace w)) (MailDelete (ID msg)) \<longrightarrow>
            inbox (snd (processMessage env msg w)) = inbox w
            \<and> sessions (snd (closeMessage env (ID msg) w)) = sessions w
            \<and> files (snd (closeMessage env (ID msg) w)) = files w)"
proof -
  define w1 where "w1 = snd (closeMessage env (ID msg) w)"
  define w2 where "w2 = snd (executeLifecycleAction env request w1)"
  have pm: "processMessage env msg w = (Executed (fst (executeLifecycleAction env request w1)), w2)"
    unfolding w1_def w2_def using unread lifecycle fresh by (rule processMessage_accepted)
  have w2: "snd (processMessage env msg w) = w2"
    by (simp add: pm)
  have t1: "trace w1 =
      trace w @ [(MailDelete (ID msg), \<not> fails env (length (trace w)) (MailDelete (ID msg)))]"
    by (simp add: w1_def closeMessage_trace)
  have g: "grows w1 w2"
    unfolding w2_def by (rule grows_executeLifecycleAction)
  then obtain rest where r: "trace w2 = trace w1 @ rest"
    by (auto simp add: grows_def prefix_def)
  then have t: "trace w2 = trace w @
      (MailDelete (ID msg), \<not> fails env (length (trace w)) (MailDelete (ID msg))) # rest"
    by (simp add: t1)
  have i: "inbox w2 = inbox w1"
    using g by (simp add: grows_def)
  have gone: "\<forall>m \<in> set (inbox (processMessages env msgs w2)). ID m \<noteq> ID msg"
    if ok: "\<not> fails env (length (trace w)) (MailDelete (ID msg))" for msgs
  proof
    fix m assume "m \<in> set (inbox (processMessages env msgs w2))"
    then have "m \<in> set (inbox w2)"
      using inbox_processMessages_subset by blast
    then show "ID m \<noteq> ID msg"
      using ok by (simp add: i w1_def closeMessage_inbox)
  qed
  have stays: "inbox w2 = inbox w \<and> sessions w1 = sessions w \<and> files w1 = files w"
    if "fails env (length (trace w)) (MailDelete (ID msg))"
    using that by (simp add: i w1_def closeMessage_inbox closeMessage_files)
       (simp add: closeMessage_def exec_def)
  have ex: "\<exists>rest. trace w2 = trace w1 @ rest
              \<and> trace w2 = trace w @
                  (MailDelete (ID msg), \<not> fails env (length (trace w)) (MailDelete (ID msg))) # rest"
    using r t by blast
  from pm t1 ex gone stays show ?thesis
    unfolding w2 unfolding w2_def w1_def by blast
qed

theorem claim_before_execute_witness:
  "\<not> Read cycleRequest
   \<and> parseLifecycleRequest sampleEnv sampleWorld cycleRequest = Some cycleWitness
   \<and> \<not> staleMessage sampleEnv sampleWorld cycleRequest
   \<and> fst (processMessage sampleEnv cycleRequest sampleWorld) = Executed None
   \<and> (\<exists>rest. trace (snd (processMessage sampleEnv cycleRequest sampleWorld))
               = (MailDelete ''msg-1'', True) # rest)
   \<and> ''msg-1'' \<notin> ID ` set (inbox (snd (processMessage sampleEnv cycleRequest sampleWorld)))
   \<and> parseLifecycleRequest deleteFailsEnv sampleWorld cycleRequest = Some cycleWitness
   \<and> \<not> staleMessage deleteFailsEnv sampleWorld cycleRequest
   \<and> fst (processMessage deleteFailsEnv cycleRequest sampleWorld) = Executed None
   \<and> inbox (snd (processMessage deleteFailsEnv cycleRequest sampleWorld)) = inbox sampleWorld"
proof -
  have unread: "\<not> Read cycleRequest"
    by (simp add: cycleRequest_def)
  have lifecycle: "parseLifecycleRequest sampleEnv sampleWorld cycleRequest = Some cycleWitness"
    by code_simp
  have fresh: "\<not> staleMessage sampleEnv sampleWorld cycleRequest"
    by code_simp
  have lifecycle': "parseLifecycleRequest deleteFailsEnv sampleWorld cycleRequest = Some cycleWitness"
    by code_simp
  have fresh': "\<not> staleMessage deleteFailsEnv sampleWorld cycleRequest"
    by code_simp
  have f: "\<not> fails sampleEnv (length (trace sampleWorld)) (MailDelete (ID cycleRequest))"
    by (simp add: sampleEnv_def)
  have f': "fails deleteFailsEnv (length (trace sampleWorld)) (MailDelete (ID cycleRequest))"
    by (simp add: deleteFailsEnv_def)
  have i: "ID cycleRequest = ''msg-1''" and t: "trace sampleWorld = []"
    by (simp_all add: cycleRequest_def sampleWorld_def)
  have a: "fst (executeLifecycleAction sampleEnv cycleWitness
                  (snd (closeMessage sampleEnv (ID cycleRequest) sampleWorld))) = None"
    by code_simp
  have a': "fst (executeLifecycleAction deleteFailsEnv cycleWitness
                   (snd (closeMessage deleteFailsEnv (ID cycleRequest) sampleWorld))) = None"
    by code_simp
  from claim_before_execute [OF unread lifecycle fresh] f
  have pm: "processMessage sampleEnv cycleRequest sampleWorld =
           (Executed (fst (executeLifecycleAction sampleEnv cycleWitness
                             (snd (closeMessage sampleEnv (ID cycleRequest) sampleWorld)))),
            snd (executeLifecycleAction sampleEnv cycleWitness
                   (snd (closeMessage sampleEnv (ID cycleRequest) sampleWorld))))"
    and first: "\<exists>rest. trace (snd (processMessage sampleEnv cycleRequest sampleWorld)) =
            trace sampleWorld @ (MailDelete (ID cycleRequest), True) # rest"
    and later: "\<forall>msgs. \<forall>m \<in> set (inbox (processMessages sampleEnv msgs
                             (snd (processMessage sampleEnv cycleRequest sampleWorld)))).
           ID m \<noteq> ID cycleRequest"
    by auto
  from later [THEN spec, of "[]"]
  have absent: "\<forall>m \<in> set (inbox (snd (processMessage sampleEnv cycleRequest sampleWorld))).
           ID m \<noteq> ID cycleRequest"
    by simp
  from claim_before_execute [OF unread lifecycle' fresh'] f'
  have pm': "processMessage deleteFailsEnv cycleRequest sampleWorld =
           (Executed (fst (executeLifecycleAction deleteFailsEnv cycleWitness
                             (snd (closeMessage deleteFailsEnv (ID cycleRequest) sampleWorld)))),
            snd (executeLifecycleAction deleteFailsEnv cycleWitness
                   (snd (closeMessage deleteFailsEnv (ID cycleRequest) sampleWorld))))"
    and stays: "inbox (snd (processMessage deleteFailsEnv cycleRequest sampleWorld)) = inbox sampleWorld"
    by auto
  have e: "fst (processMessage sampleEnv cycleRequest sampleWorld) = Executed None"
    by (simp add: pm a)
  have e': "fst (processMessage deleteFailsEnv cycleRequest sampleWorld) = Executed None"
    by (simp add: pm' a')
  from unread lifecycle fresh lifecycle' fresh' e e' first absent stays show ?thesis
    by (auto simp add: i t)
qed

text \<open>
  C1, as stated, fails when the mailbox refuses the deletion. With the flag staged, the
  action runs (the session is killed and restarted) and the message is still in the
  inbox. With the flag not staged, the action fails, the message is still in the inbox,
  and processing the inbox again attempts the same request again.
\<close>

theorem message_survives_failed_delete:
  "fst (processMessage deleteFailsEnv cycleRequest sampleWorld) = Executed None
   \<and> take 2 (trace (snd (processMessage deleteFailsEnv cycleRequest sampleWorld)))
       = [(MailDelete ''msg-1'', False), (KillSession ''gt-gastown-witness'', True)]
   \<and> map ID (inbox (snd (processMessage deleteFailsEnv cycleRequest sampleWorld)))
       = [''msg-1'', ''msg-2'']
   \<and> fst (processMessage deleteFailsEnv cycleRequest unstagedWorld)
       = Executed (Some (StateVerificationFailed (NotTrue ''requesting_cycle'')))
   \<and> map ID (inbox (snd (processMessage deleteFailsEnv cycleRequest unstagedWorld)))
       = [''msg-1'', ''msg-2'']
   \<and> fst (processMessage deleteFailsEnv cycleRequest
             (snd (processMessage deleteFailsEnv cycleRequest unstagedWorld)))
       = Executed (Some (StateVerificationFailed (NotTrue ''requesting_cycle'')))"
  by code_simp

text \<open>
  C6, as amended. An unread lifecycle message whose timestamp decodes and is more than
  six hours old is discarded: the only command issued is the deletion of the message, so
  no session is killed or started and no state file is touched; the message is
  gone from the inbox when the deletion returns no error, and the inbox is as it was when
  it returns one.
\<close>

theorem stale_message_discarded:
  assumes unread: "\<not> Read msg"
      and lifecycle: "parseLifecycleRequest env w msg = Some request"
      and ts: "parseRFC3339 env (BeadsMessage.Timestamp msg) = Some msgTime"
      and old: "time_Since (clock w) msgTime > 6 * Hour"
  shows "fst (processMessage env msg w) = DiscardedStale
       \<and> trace (snd (processMessage env msg w)) =
           trace w @ [(MailDelete (ID msg), \<not> fails env (length (trace w)) (MailDelete (ID msg)))]
       \<and> sessions (snd (processMessage env msg w)) = sessions w
       \<and> files (snd (processMessage env msg w)) = files w
       \<and> inbox (snd (processMessage env msg w)) =
           (if fails env (length (trace w)) (MailDelete (ID msg)) then inbox w
            else filter (\<lambda>m. ID m \<noteq> ID msg) (inbox w))"
proof -
  have "staleMessage env w msg"
    using ts old by (simp add: staleMessage_def MaxLifecycleMessageAge_def)
  with unread lifecycle
  have pm: "processMessage env msg w = (DiscardedStale, snd (closeMessage env (ID msg) w))"
    by (simp add: processMessage_def)
  show ?thesis
    unfolding pm by (simp add: closeMessage_trace closeMessage_inbox) (simp add: closeMessage_def exec_def)
qed

theorem stale_message_discarded_witness:
  "\<not> Read staleRequest
   \<and> parseLifecycleRequest sampleEnv sampleWorld staleRequest
       = Some \<lparr>From = ''gastown-witness'', Action = ActionRestart, Timestamp = noon\<rparr>
   \<and> time_Since (clock sampleWorld) (noon - 7 * Hour) = 7 * Hour
   \<and> fst (processMessage sampleEnv staleRequest sampleWorld) = DiscardedStale
   \<and> trace (snd (processMessage sampleEnv staleRequest sampleWorld))
       = [(MailDelete ''msg-2'', True)]
   \<and> sessions (snd (processMessage sampleEnv staleRequest sampleWorld)) = sessions sampleWorld
   \<and> map ID (inbox (snd (processMessage sampleEnv staleRequest sampleWorld))) = [''msg-1'']"
proof -
  have unread: "\<not> Read staleRequest"
    by (simp add: staleRequest_def)
  have lifecycle: "parseLifecycleRequest sampleEnv sampleWorld staleRequest
       = Some \<lparr>From = ''gastown-witness'', Action = ActionRestart, Timestamp = noon\<rparr>"
    by code_simp
  have ts: "parseRFC3339 sampleEnv (BeadsMessage.Timestamp staleRequest) = Some (noon - 7 * Hour)"
    by code_simp
  have age: "time_Since (clock sampleWorld) (noon - 7 * Hour) = 7 * Hour"
    by code_simp
  have old: "time_Since (clock sampleWorld) (noon - 7 * Hour) > 6 * Hour"
    by code_simp
  have f: "\<not> fails sampleEnv (length (trace sampleWorld)) (MailDelete (ID staleRequest))"
    by (simp add: sampleEnv_def)
  have w: "trace sampleWorld = []" "ID staleRequest = ''msg-2''"
    "map ID (filter (\<lambda>m. ID m \<noteq> ''msg-2'') (inbox sampleWorld)) = [''msg-1'']"
    by (simp_all add: sampleWorld_def staleRequest_def cycleRequest_def)
  from stale_message_discarded [OF unread lifecycle ts old] f w unread lifecycle age
  show ?thesis
    by simp
qed

text \<open>
  C6, as stated, fails when the mailbox refuses the deletion: the seven-hour-old request is
  discarded without any session action, and is still in the inbox.
\<close>

theorem stale_message_survives_failed_delete:
  "parseRFC3339 deleteFailsEnv (BeadsMessage.Timestamp staleRequest) = Some (noon - 7 * Hour)
   \<and> time_Since (clock sampleWorld) (noon - 7 * Hour) = 7 * Hour
   \<and> fst (processMessage deleteFailsEnv staleRequest sampleWorld) = DiscardedStale
   \<and> trace (snd (processMessage deleteFailsEnv staleRequest sampleWorld))
       = [(MailDelete ''msg-2'', False)]
   \<and> map ID (inbox (snd (processMessage deleteFailsEnv staleRequest sampleWorld)))
       = [''msg-1'', ''msg-2'']"
  by code_simp




end
